theory Spec2Isabelle
  imports Main "HOL-Library.Word"
begin

unbundle bit_operations_syntax

section \<open>Machine types and byte order\<close>

type_synonym u8 = "8 word"
type_synonym u32 = "32 word"
type_synonym u64 = "64 word"

text \<open>
  The target CPU is little-endian: \<open>memcpy(&x, p, sizeof(u32))\<close> assembles the four
  bytes at \<open>p\<close> with the first byte least significant (\<open>le32\<close>).
  \<open>__builtin_bswap32\<close> reverses the four bytes of a 32-bit value.
\<close>

definition le32 :: "u8 \<Rightarrow> u8 \<Rightarrow> u8 \<Rightarrow> u8 \<Rightarrow> u32" where
  "le32 b0 b1 b2 b3 =
     ucast b0 OR push_bit 8 (ucast b1) OR push_bit 16 (ucast b2) OR push_bit 24 (ucast b3)"

definition byte_of :: "u32 \<Rightarrow> nat \<Rightarrow> u8" where
  "byte_of x i = ucast (drop_bit (8 * i) x)"

definition bswap32 :: "u32 \<Rightarrow> u32" where
  "bswap32 x = le32 (byte_of x 3) (byte_of x 2) (byte_of x (Suc 0)) (byte_of x 0)"

text \<open>The big-endian reading of four bytes, as the on-disk and wire formats state it.\<close>

definition be32 :: "u8 \<Rightarrow> u8 \<Rightarrow> u8 \<Rightarrow> u8 \<Rightarrow> u32" where
  "be32 b0 b1 b2 b3 =
     push_bit 24 (ucast b0) OR push_bit 16 (ucast b1) OR push_bit 8 (ucast b2) OR ucast b3"

text \<open>
  \<open>memcpy(&x, mem + off, sizeof(u32))\<close>. \<open>mem\<close> is the whole object the pointer points
  into; a copy that leaves it is undefined behaviour in C and is the value \<open>None\<close> here.
\<close>

definition memcpy_u32 :: "u8 list \<Rightarrow> nat \<Rightarrow> u32 option" where
  "memcpy_u32 mem off =
     (if off + 4 \<le> length mem
      then Some (le32 (mem ! off) (mem ! (off + 1)) (mem ! (off + 2)) (mem ! (off + 3)))
      else None)"

text \<open>The big-endian 32-bit field at an offset of a buffer, when the buffer holds it.\<close>

definition be32_at :: "u8 list \<Rightarrow> nat \<Rightarrow> u32 option" where
  "be32_at mem off =
     (if off + 4 \<le> length mem
      then Some (be32 (mem ! off) (mem ! (off + 1)) (mem ! (off + 2)) (mem ! (off + 3)))
      else None)"

text \<open>Incrementing a counter that is below some bound does not wrap around.\<close>

lemma unat_inc:
  fixes i m :: "'a::len word"
  assumes "i < m"
  shows "unat (i + 1) = Suc (unat i)"
proof -
  have "unat i < unat m"
    using assms by (simp add: word_less_nat_alt)
  moreover have "unat m < 2 ^ LENGTH('a)"
    by (rule unsigned_less)
  ultimately have "Suc (unat i) < 2 ^ LENGTH('a)"
    by linarith
  then have "unat i + unat (1 :: 'a word) < 2 ^ LENGTH('a)"
    by simp
  then show ?thesis
    using unat_add_lem[of i 1] by simp
qed

section \<open>cert.c: the certificate type\<close>

text \<open>
  The enumerators of \<open>SignatureType\<close> and \<open>CertPubKeyType\<close>, the sizes of the signature
  and public key blocks, the sizes of the members of \<open>CertSigRsa4096PubKeyRsa4096\<close> and the
  two size limits come from \<open>cert.h\<close> and \<open>signature.h\<close>. The functions below take them as
  a parameter. The sizes are \<open>size_t\<close> values and are added to a \<open>u64\<close> offset.
\<close>

record cert_layout =
  SignatureType_Rsa4096Sha1 :: u32
  SignatureType_Rsa2048Sha1 :: u32
  SignatureType_Ecsda240Sha1 :: u32
  SignatureType_Rsa4096Sha256 :: u32
  SignatureType_Rsa2048Sha256 :: u32
  SignatureType_Ecsda240Sha256 :: u32
  CertPubKeyType_Rsa4096 :: u32
  CertPubKeyType_Rsa2048 :: u32
  CertPubKeyType_Ecsda240 :: u32
  sizeof_SignatureBlockRsa4096 :: u64
  sizeof_SignatureBlockRsa2048 :: u64
  sizeof_SignatureBlockEcsda240 :: u64
  sizeof_issuer :: u64
  sizeof_pub_key_type :: u64
  sizeof_name :: u64
  sizeof_cert_id :: u64
  sizeof_CertPublicKeyBlockRsa4096 :: u64
  sizeof_CertPublicKeyBlockRsa2048 :: u64
  sizeof_CertPublicKeyBlockEcsda240 :: u64
  CERT_MIN_SIZE :: u64
  CERT_MAX_SIZE :: u64

text \<open>
  The values of the platform headers: the three signature blocks hold the 4-byte
  \<open>sig_type\<close>, the signature and its padding; the field widths are those of the on-disk
  layout; \<open>CERT_MIN_SIZE\<close> and \<open>CERT_MAX_SIZE\<close> are the smallest and the largest of the
  nine layouts.
\<close>

definition nx_layout :: cert_layout where
  "nx_layout = \<lparr>
     SignatureType_Rsa4096Sha1 = 0x10000,
     SignatureType_Rsa2048Sha1 = 0x10001,
     SignatureType_Ecsda240Sha1 = 0x10002,
     SignatureType_Rsa4096Sha256 = 0x10003,
     SignatureType_Rsa2048Sha256 = 0x10004,
     SignatureType_Ecsda240Sha256 = 0x10005,
     CertPubKeyType_Rsa4096 = 0,
     CertPubKeyType_Rsa2048 = 1,
     CertPubKeyType_Ecsda240 = 2,
     sizeof_SignatureBlockRsa4096 = 0x240,
     sizeof_SignatureBlockRsa2048 = 0x140,
     sizeof_SignatureBlockEcsda240 = 0x80,
     sizeof_issuer = 0x40,
     sizeof_pub_key_type = 4,
     sizeof_name = 0x40,
     sizeof_cert_id = 4,
     sizeof_CertPublicKeyBlockRsa4096 = 0x238,
     sizeof_CertPublicKeyBlockRsa2048 = 0x138,
     sizeof_CertPublicKeyBlockEcsda240 = 0x78,
     CERT_MIN_SIZE = 0x180,
     CERT_MAX_SIZE = 0x500 \<rparr>"

datatype CertType =
    CertType_Invalid
  | CertType_SigRsa4096_PubKeyRsa4096
  | CertType_SigRsa4096_PubKeyRsa2048
  | CertType_SigRsa4096_PubKeyEcsda240
  | CertType_SigRsa2048_PubKeyRsa4096
  | CertType_SigRsa2048_PubKeyRsa2048
  | CertType_SigRsa2048_PubKeyEcsda240
  | CertType_SigEcsda240_PubKeyRsa4096
  | CertType_SigEcsda240_PubKeyRsa2048
  | CertType_SigEcsda240_PubKeyEcsda240

text \<open>
  The macro \<open>CERT_TYPE(sig)\<close>; the three enumerators that the token pasting names are
  passed in the order Rsa4096, Rsa2048, Ecsda240.
\<close>

definition CERT_TYPE :: "cert_layout \<Rightarrow> u32 \<Rightarrow> CertType \<Rightarrow> CertType \<Rightarrow> CertType \<Rightarrow> CertType" where
  "CERT_TYPE lay pub_key_type t_rsa4096 t_rsa2048 t_ecsda240 =
     (if pub_key_type = CertPubKeyType_Rsa4096 lay then t_rsa4096
      else if pub_key_type = CertPubKeyType_Rsa2048 lay then t_rsa2048
      else t_ecsda240)"

text \<open>The first \<open>switch\<close>: the size of the signature block, \<open>None\<close> in the default case.\<close>

definition switch_sig_type :: "cert_layout \<Rightarrow> u32 \<Rightarrow> u64 option" where
  "switch_sig_type lay sig_type =
     (if sig_type = SignatureType_Rsa4096Sha1 lay \<or> sig_type = SignatureType_Rsa4096Sha256 lay
      then Some (sizeof_SignatureBlockRsa4096 lay)
      else if sig_type = SignatureType_Rsa2048Sha1 lay \<or> sig_type = SignatureType_Rsa2048Sha256 lay
      then Some (sizeof_SignatureBlockRsa2048 lay)
      else if sig_type = SignatureType_Ecsda240Sha1 lay \<or> sig_type = SignatureType_Ecsda240Sha256 lay
      then Some (sizeof_SignatureBlockEcsda240 lay)
      else None)"

text \<open>The second \<open>switch\<close>: the size of the public key block, \<open>None\<close> in the default case.\<close>

definition switch_pub_key_type :: "cert_layout \<Rightarrow> u32 \<Rightarrow> u64 option" where
  "switch_pub_key_type lay pub_key_type =
     (if pub_key_type = CertPubKeyType_Rsa4096 lay then Some (sizeof_CertPublicKeyBlockRsa4096 lay)
      else if pub_key_type = CertPubKeyType_Rsa2048 lay then Some (sizeof_CertPublicKeyBlockRsa2048 lay)
      else if pub_key_type = CertPubKeyType_Ecsda240 lay then Some (sizeof_CertPublicKeyBlockEcsda240 lay)
      else None)"

text \<open>The final \<open>if\<close> chain that picks the type from \<open>sig_type\<close> and \<open>pub_key_type\<close>.\<close>

definition select_type :: "cert_layout \<Rightarrow> u32 \<Rightarrow> u32 \<Rightarrow> CertType" where
  "select_type lay sig_type pub_key_type =
     (if sig_type = SignatureType_Rsa4096Sha1 lay \<or> sig_type = SignatureType_Rsa4096Sha256 lay
      then CERT_TYPE lay pub_key_type CertType_SigRsa4096_PubKeyRsa4096
             CertType_SigRsa4096_PubKeyRsa2048 CertType_SigRsa4096_PubKeyEcsda240
      else if sig_type = SignatureType_Rsa2048Sha1 lay \<or> sig_type = SignatureType_Rsa2048Sha256 lay
      then CERT_TYPE lay pub_key_type CertType_SigRsa2048_PubKeyRsa4096
             CertType_SigRsa2048_PubKeyRsa2048 CertType_SigRsa2048_PubKeyEcsda240
      else if sig_type = SignatureType_Ecsda240Sha1 lay \<or> sig_type = SignatureType_Ecsda240Sha256 lay
      then CERT_TYPE lay pub_key_type CertType_SigEcsda240_PubKeyRsa4096
             CertType_SigEcsda240_PubKeyRsa2048 CertType_SigEcsda240_PubKeyEcsda240
      else CertType_Invalid)"

text \<open>
  The messages that \<open>cert.c\<close> writes with \<open>LOGFILE\<close>, one constructor for each
  format string, with the arguments of the call.
\<close>

datatype cert_log =
    Log_InvalidParameters
  | Log_FailedToOpenSavefile
  | Log_FailedToLocateCertificate string
  | Log_InvalidSize string u64
  | Log_FailedToRead u64 string u64
  | Log_InvalidCertificateType string
  | Log_InvalidSignatureIssuerString
  | Log_UnableToAllocateChain
  | Log_UnableToRetrieveCertificate string
  | Log_ErrorRetrievingChain string
  | Log_UnableToAllocateRawChain string u64
  | Log_InvalidSignatureTypeValue u32
  | Log_InvalidPublicKeyTypeValue u32
  | Log_EndOffsetMismatch u64 u64

text \<open>
  What one call of \<open>certGetCertificateType\<close> does: the type it returns (\<open>None\<close> when a
  \<open>memcpy\<close> left the object behind \<open>data\<close>), the source ranges (offset, length) of the
  \<open>memcpy\<close> calls it made, in order, and the messages it logged.
\<close>

record type_run =
  ret_type :: "CertType option"
  reads :: "(nat \<times> nat) list"
  type_log :: "cert_log list"

text \<open>
  \<open>certGetCertificateType(data, data_size)\<close>. \<open>data\<close> is \<open>None\<close> for a null pointer and
  else the bytes of the object it points to; \<open>data_size\<close> is the length the caller states.
\<close>

definition certGetCertificateType :: "cert_layout \<Rightarrow> u8 list option \<Rightarrow> u64 \<Rightarrow> type_run" where
  "certGetCertificateType lay data data_size =
     (case data of
        None \<Rightarrow> \<lparr>ret_type = Some CertType_Invalid, reads = [], type_log = [Log_InvalidParameters]\<rparr>
      | Some data_u8 \<Rightarrow>
          if data_size < CERT_MIN_SIZE lay \<or> data_size > CERT_MAX_SIZE lay
          then \<lparr>ret_type = Some CertType_Invalid, reads = [], type_log = [Log_InvalidParameters]\<rparr>
          else
            (case memcpy_u32 data_u8 0 of
               None \<Rightarrow> \<lparr>ret_type = None, reads = [(0, 4)], type_log = []\<rparr>
             | Some w0 \<Rightarrow>
                 let sig_type = bswap32 w0 in
                 (case switch_sig_type lay sig_type of
                    None \<Rightarrow> \<lparr>ret_type = Some CertType_Invalid, reads = [(0, 4)],
                              type_log = [Log_InvalidSignatureTypeValue sig_type]\<rparr>
                  | Some sig_block \<Rightarrow>
                      let offset = 0 + sig_block;
                          offset = offset + sizeof_issuer lay;
                          rd = [(0, 4), (unat offset, 4)]
                      in
                      (case memcpy_u32 data_u8 (unat offset) of
                         None \<Rightarrow> \<lparr>ret_type = None, reads = rd, type_log = []\<rparr>
                       | Some w1 \<Rightarrow>
                           let pub_key_type = bswap32 w1;
                               offset = offset + sizeof_pub_key_type lay;
                               offset = offset + sizeof_name lay;
                               offset = offset + sizeof_cert_id lay
                           in
                           (case switch_pub_key_type lay pub_key_type of
                              None \<Rightarrow> \<lparr>ret_type = Some CertType_Invalid, reads = rd,
                                        type_log = [Log_InvalidPublicKeyTypeValue pub_key_type]\<rparr>
                            | Some pk_block \<Rightarrow>
                                let offset = offset + pk_block in
                                if offset \<noteq> data_size
                                then \<lparr>ret_type = Some CertType_Invalid, reads = rd,
                                       type_log = [Log_EndOffsetMismatch offset data_size]\<rparr>
                                else \<lparr>ret_type = Some (select_type lay sig_type pub_key_type),
                                       reads = rd, type_log = []\<rparr>)))))"

text \<open>The recognised values of the two type fields.\<close>

definition recognised_sig_types :: "cert_layout \<Rightarrow> u32 set" where
  "recognised_sig_types lay =
     {SignatureType_Rsa4096Sha1 lay, SignatureType_Rsa2048Sha1 lay, SignatureType_Ecsda240Sha1 lay,
      SignatureType_Rsa4096Sha256 lay, SignatureType_Rsa2048Sha256 lay, SignatureType_Ecsda240Sha256 lay}"

definition recognised_pub_key_types :: "cert_layout \<Rightarrow> u32 set" where
  "recognised_pub_key_types lay =
     {CertPubKeyType_Rsa4096 lay, CertPubKeyType_Rsa2048 lay, CertPubKeyType_Ecsda240 lay}"

text \<open>
  A certificate of the smallest layout (ECDSA signature, ECDSA public key) and a buffer of
  the same length that announces an RSA-4096 signature.
\<close>

definition ecsda_cert :: "u8 list" where
  "ecsda_cert = [0, 1, 0, 2] @ replicate 0xBC 0 @ [0, 0, 0, 2] @ replicate 0xBC 0"

definition short_rsa4096_buffer :: "u8 list" where
  "short_rsa4096_buffer = [0, 1, 0, 0] @ replicate 0x17C 0"

section \<open>cert.c: lookup by name, chains and raw chains\<close>

text \<open>
  The two structures of \<open>cert.h\<close>. \<open>data\<close> is an array inside the structure; the list
  holds all of it, \<open>size\<close> tells how much of it is the certificate. The fields are named
  \<open>type_c\<close>, \<open>size_c\<close> and \<open>data_c\<close>. \<open>certs\<close> is \<open>None\<close> for a null pointer and else
  the array it points to.
\<close>

record Certificate =
  type_c :: CertType
  size_c :: u64
  data_c :: "u8 list"

record CertificateChain =
  count :: u32
  certs :: "Certificate list option"

text \<open>
  What lies outside \<open>cert.c\<close>. For the save file: whether it opens, and for each path
  whether an entry is found, the size reported for it and the bytes that
  \<open>save_allocation_table_storage_read\<close> delivers when asked for that many bytes from
  offset 0 (it returns how many; it is taken to write inside the destination array).
  \<open>SAVE_FS_LIST_MAX_NAME_LENGTH\<close> comes from \<open>save.h\<close>. For the heap: whether \<open>calloc\<close>
  and \<open>malloc\<close> succeed, the enumerator of \<open>CertType\<close> whose value is 0 (what \<open>calloc\<close>
  leaves in \<open>type\<close>), and the bytes found in memory that \<open>malloc\<close> returns.
\<close>

record save_file =
  entry_size :: u64
  entry_read :: "u8 list"

record cert_env =
  SAVE_FS_LIST_MAX_NAME_LENGTH :: nat
  savefile_opens :: bool
  save_lookup :: "string \<Rightarrow> save_file option"
  calloc_ok :: bool
  zero_type :: CertType
  malloc_ok :: bool
  malloc_content :: "nat \<Rightarrow> u8"

definition CERT_SAVEFILE_STORAGE_BASE_PATH :: string where
  "CERT_SAVEFILE_STORAGE_BASE_PATH = ''/certificate/''"

text \<open>
  \<open>certRetrieveCertificateByName(dst, name)\<close>: the value returned, the certificate behind
  \<open>dst\<close> afterwards and the messages logged. \<open>None\<close> stands for undefined behaviour
  (\<open>certGetCertificateType\<close> read outside the array).
\<close>

definition certRetrieveCertificateByName ::
    "cert_layout \<Rightarrow> cert_env \<Rightarrow> Certificate option \<Rightarrow> string option
       \<Rightarrow> (bool \<times> Certificate option \<times> cert_log list) option" where
  "certRetrieveCertificateByName lay env dst name =
     (case (dst, name) of
        (Some d, Some n) \<Rightarrow>
          if n = [] then Some (False, dst, [Log_InvalidParameters])
          else
            let cert_path = take (SAVE_FS_LIST_MAX_NAME_LENGTH env - 1)
                              (CERT_SAVEFILE_STORAGE_BASE_PATH @ n)
            in
            if \<not> savefile_opens env then Some (False, dst, [Log_FailedToOpenSavefile])
            else
              (case save_lookup env cert_path of
                 None \<Rightarrow> Some (False, dst, [Log_FailedToLocateCertificate n])
               | Some f \<Rightarrow>
                   let cert_size = entry_size f in
                   if cert_size < CERT_MIN_SIZE lay \<or> cert_size > CERT_MAX_SIZE lay
                   then Some (False, dst, [Log_InvalidSize n cert_size])
                   else
                     let d1 = d\<lparr>size_c := cert_size\<rparr>;
                         br = (of_nat (length (entry_read f)) :: u64);
                         d2 = d1\<lparr>data_c := entry_read f @ drop (length (entry_read f)) (data_c d1)\<rparr>
                     in
                     if br \<noteq> size_c d2
                     then Some (False, Some d2, [Log_FailedToRead (size_c d2) n br])
                     else
                       let run = certGetCertificateType lay (Some (data_c d2)) (size_c d2) in
                       (case ret_type run of
                          None \<Rightarrow> None
                        | Some t \<Rightarrow>
                            let d3 = d2\<lparr>type_c := t\<rparr> in
                            if type_c d3 = CertType_Invalid
                            then Some (False, Some d3,
                                       type_log run @ [Log_InvalidCertificateType n])
                            else Some (True, Some d3, type_log run)))
      | _ \<Rightarrow> Some (False, dst, [Log_InvalidParameters]))"

definition certFreeCertificateChain :: "CertificateChain option \<Rightarrow> CertificateChain option" where
  "certFreeCertificateChain chain =
     (case chain of
        None \<Rightarrow> None
      | Some c \<Rightarrow> if certs c = None then Some c else Some (c\<lparr>count := 0, certs := None\<rparr>))"

text \<open>
  \<open>snprintf(issuer_copy, 0x40, issuer + 5)\<close> uses the rest of the issuer as the format
  string and passes no argument. \<open>printf_noargs\<close> is the output of such a format: \<open>%%\<close>
  prints one \<open>%\<close>, any other conversion has no argument to take and is undefined
  (\<open>None\<close>). \<open>snprintf\<close> keeps at most \<open>0x3F\<close> characters of the output.
\<close>

fun printf_noargs :: "string \<Rightarrow> string option" where
  "printf_noargs [] = Some []"
| "printf_noargs [c] = (if c = CHR ''%'' then None else Some [c])"
| "printf_noargs (c # c' # s) =
     (if c = CHR ''%''
      then (if c' = CHR ''%'' then map_option ((#) CHR ''%'') (printf_noargs s) else None)
      else map_option ((#) c) (printf_noargs (c' # s)))"

definition issuer_copy :: "string \<Rightarrow> string option" where
  "issuer_copy issuer =
     (if length issuer < 5 then None
      else map_option (take 0x3F) (printf_noargs (drop 5 issuer)))"

text \<open>
  \<open>strtok\<close> with the delimiter \<open>"-"\<close>, on the text from the saved position on: it skips
  delimiters, and if text is left it returns the token up to the next delimiter and the
  new saved position behind that delimiter.
\<close>

definition strtok :: "string \<Rightarrow> (string \<times> string) option" where
  "strtok s =
     (let s1 = dropWhile (\<lambda>c. c = CHR ''-'') s in
      if s1 = [] then None
      else Some (takeWhile (\<lambda>c. c \<noteq> CHR ''-'') s1,
                 drop 1 (dropWhile (\<lambda>c. c \<noteq> CHR ''-'') s1)))"

lemma strtok_shorter:
  assumes "strtok s = Some (pch, rest)"
  shows "length rest < length s"
proof -
  let ?s1 = "dropWhile (\<lambda>c. c = CHR ''-'') s"
  from assms have ne: "?s1 \<noteq> []" and r: "rest = drop 1 (dropWhile (\<lambda>c. c \<noteq> CHR ''-'') ?s1)"
    by (auto simp: strtok_def Let_def split: if_splits)
  from ne have "hd ?s1 \<noteq> CHR ''-''"
    using hd_dropWhile[of "\<lambda>c. c = CHR ''-''" s] by simp
  with ne have "length (dropWhile (\<lambda>c. c \<noteq> CHR ''-'') ?s1) < length ?s1"
    by (cases ?s1) (simp_all add: length_dropWhile_le le_imp_less_Suc)
  moreover have "length ?s1 \<le> length s"
    by (rule length_dropWhile_le)
  ultimately show ?thesis using r by simp
qed

text \<open>The loop of \<open>certGetCertificateCountInSignatureIssuer\<close>, from the saved position.\<close>

function count_loop :: "string \<Rightarrow> u32 \<Rightarrow> u32" where
  "count_loop saved cnt =
     (case strtok saved of
        None \<Rightarrow> cnt
      | Some (pch, saved') \<Rightarrow> count_loop saved' (cnt + 1))"
  by pat_completeness auto
termination
  by (relation "measure (\<lambda>(saved, cnt). length saved)") (auto dest: strtok_shorter)

text \<open>
  \<open>certGetCertificateCountInSignatureIssuer\<close>. It forms \<open>issuer + 5\<close> without a check of
  its own; for an issuer shorter than that the result is undefined (\<open>None\<close>).
\<close>

definition certGetCertificateCountInSignatureIssuer :: "string option \<Rightarrow> u32 option" where
  "certGetCertificateCountInSignatureIssuer issuer =
     (case issuer of
        None \<Rightarrow> Some 0
      | Some iss \<Rightarrow>
          if iss = [] then Some 0
          else map_option (\<lambda>copy. count_loop copy 0) (issuer_copy iss))"

text \<open>
  The loop of \<open>certRetrieveCertificateChainBySignatureIssuer\<close>: the array, the saved
  position of \<open>strtok\<close> and \<open>i\<close>; it gives \<open>success\<close>, the array and the messages. An
  index outside the array is undefined behaviour.
\<close>

function retrieve_loop ::
    "cert_layout \<Rightarrow> cert_env \<Rightarrow> Certificate list \<Rightarrow> string \<Rightarrow> u32
       \<Rightarrow> (bool \<times> Certificate list \<times> cert_log list) option" where
  "retrieve_loop lay env cs saved i =
     (case strtok saved of
        None \<Rightarrow> Some (True, cs, [])
      | Some (pch, saved') \<Rightarrow>
          if \<not> unat i < length cs then None
          else
            (case certRetrieveCertificateByName lay env (Some (cs ! unat i)) (Some pch) of
               Some (ok, Some c, lg) \<Rightarrow>
                 if \<not> ok
                 then Some (False, cs[unat i := c], lg @ [Log_UnableToRetrieveCertificate pch])
                 else
                   (case retrieve_loop lay env (cs[unat i := c]) saved' (i + 1) of
                      None \<Rightarrow> None
                    | Some (success, cs', lg') \<Rightarrow> Some (success, cs', lg @ lg'))
             | _ \<Rightarrow> None))"
  by pat_completeness auto
termination
  by (relation "measure (\<lambda>(lay, env, cs, saved, i). length saved)") (auto dest: strtok_shorter)

text \<open>The certificate that \<open>calloc\<close> leaves in every element of the array.\<close>

definition calloc_Certificate :: "cert_layout \<Rightarrow> cert_env \<Rightarrow> Certificate" where
  "calloc_Certificate lay env =
     \<lparr>type_c = zero_type env, size_c = 0, data_c = replicate (unat (CERT_MAX_SIZE lay)) 0\<rparr>"

definition certRetrieveCertificateChainBySignatureIssuer ::
    "cert_layout \<Rightarrow> cert_env \<Rightarrow> CertificateChain option \<Rightarrow> string option
       \<Rightarrow> (bool \<times> CertificateChain option \<times> cert_log list) option" where
  "certRetrieveCertificateChainBySignatureIssuer lay env dst issuer =
     (case (dst, issuer) of
        (Some d, Some iss) \<Rightarrow>
          if iss = [] \<or> take 5 iss \<noteq> ''Root-'' then Some (False, dst, [Log_InvalidParameters])
          else
            (case certGetCertificateCountInSignatureIssuer issuer of
               None \<Rightarrow> None
             | Some n \<Rightarrow>
                 let d1 = d\<lparr>count := n\<rparr> in
                 if count d1 = 0 then Some (False, Some d1, [Log_InvalidSignatureIssuerString])
                 else if \<not> calloc_ok env
                 then Some (False, Some (d1\<lparr>certs := None\<rparr>), [Log_UnableToAllocateChain])
                 else
                   let array = replicate (unat (count d1)) (calloc_Certificate lay env) in
                   (case issuer_copy iss of
                      None \<Rightarrow> None
                    | Some copy \<Rightarrow>
                        (case retrieve_loop lay env array copy 0 of
                           None \<Rightarrow> None
                         | Some (success, array', lg) \<Rightarrow>
                             let d2 = d1\<lparr>certs := Some array'\<rparr> in
                             Some (success,
                                   if \<not> success then certFreeCertificateChain (Some d2)
                                   else Some d2,
                                   lg))))
      | _ \<Rightarrow> Some (False, dst, [Log_InvalidParameters]))"

text \<open>
  The loop of \<open>certCalculateRawCertificateChainSize\<close> and the function. An index outside
  the array is undefined behaviour.
\<close>

function size_loop :: "Certificate list \<Rightarrow> u32 \<Rightarrow> u32 \<Rightarrow> u64 \<Rightarrow> u64 option" where
  "size_loop cs cnt i chain_size =
     (if i < cnt
      then (if unat i < length cs
            then size_loop cs cnt (i + 1) (chain_size + size_c (cs ! unat i))
            else None)
      else Some chain_size)"
  by pat_completeness auto
termination
  by (relation "measure (\<lambda>(cs, cnt, i, chain_size). unat cnt - unat i)")
     (auto simp: word_less_nat_alt unat_inc)

definition certCalculateRawCertificateChainSize :: "CertificateChain option \<Rightarrow> u64 option" where
  "certCalculateRawCertificateChainSize chain =
     (case chain of
        None \<Rightarrow> Some 0
      | Some c \<Rightarrow>
          (case certs c of
             None \<Rightarrow> Some 0
           | Some cs \<Rightarrow> if count c = 0 then Some 0 else size_loop cs (count c) 0 0))"

text \<open>
  The loop of \<open>certCopyCertificateChainDataToMemoryBuffer\<close> and the function: \<open>dst\<close> is
  the whole destination buffer and \<open>off\<close> the distance of \<open>dst_u8\<close> from its start. A
  \<open>memcpy\<close> that reads outside the \<open>data\<close> array or writes outside the buffer is
  undefined behaviour.
\<close>

function copy_loop :: "Certificate list \<Rightarrow> u32 \<Rightarrow> u32 \<Rightarrow> u8 list \<Rightarrow> nat \<Rightarrow> u8 list option" where
  "copy_loop cs cnt i dst off =
     (if i < cnt
      then (if unat i < length cs
            then
              (let n = unat (size_c (cs ! unat i)) in
               if n \<le> length (data_c (cs ! unat i)) \<and> off + n \<le> length dst
               then copy_loop cs cnt (i + 1)
                      (take off dst @ take n (data_c (cs ! unat i)) @ drop (off + n) dst)
                      (off + n)
               else None)
            else None)
      else Some dst)"
  by pat_completeness auto
termination
  by (relation "measure (\<lambda>(cs, cnt, i, dst, off). unat cnt - unat i)")
     (auto simp: word_less_nat_alt unat_inc)

definition certCopyCertificateChainDataToMemoryBuffer ::
    "u8 list \<Rightarrow> CertificateChain option \<Rightarrow> u8 list option" where
  "certCopyCertificateChainDataToMemoryBuffer dst chain =
     (case chain of
        None \<Rightarrow> Some dst
      | Some c \<Rightarrow>
          (case certs c of
             None \<Rightarrow> Some dst
           | Some cs \<Rightarrow> if count c = 0 then Some dst else copy_loop cs (count c) 0 dst 0))"

text \<open>
  \<open>certGenerateRawCertificateChainBySignatureIssuer(issuer, out_size)\<close>: the buffer
  returned (\<open>None\<close> for a null pointer), the value behind \<open>out_size\<close> afterwards
  (\<open>out_size\<close> is \<open>None\<close> for a null pointer) and the messages.
\<close>

definition certGenerateRawCertificateChainBySignatureIssuer ::
    "cert_layout \<Rightarrow> cert_env \<Rightarrow> string option \<Rightarrow> u64 option
       \<Rightarrow> (u8 list option \<times> u64 option \<times> cert_log list) option" where
  "certGenerateRawCertificateChainBySignatureIssuer lay env issuer out_size =
     (case (issuer, out_size) of
        (Some iss, Some out0) \<Rightarrow>
          if iss = [] then Some (None, out_size, [Log_InvalidParameters])
          else
            (case certRetrieveCertificateChainBySignatureIssuer lay env
                    (Some \<lparr>count = 0, certs = None\<rparr>) issuer of
               None \<Rightarrow> None
             | Some (ok, chain, lg) \<Rightarrow>
                 if \<not> ok then Some (None, out_size, lg @ [Log_ErrorRetrievingChain iss])
                 else
                   (case certCalculateRawCertificateChainSize chain of
                      None \<Rightarrow> None
                    | Some raw_chain_size \<Rightarrow>
                        if \<not> malloc_ok env
                        then Some (None, out_size,
                                   lg @ [Log_UnableToAllocateRawChain iss raw_chain_size])
                        else
                          (case certCopyCertificateChainDataToMemoryBuffer
                                  (map (malloc_content env) [0..<unat raw_chain_size]) chain of
                             None \<Rightarrow> None
                           | Some raw_chain \<Rightarrow> Some (Some raw_chain, Some raw_chain_size, lg))))
      | _ \<Rightarrow> Some (None, out_size, [Log_InvalidParameters]))"

text \<open>
  Examples, with made-up contents: a second certificate of the smallest layout, and a save
  file that holds the two certificates under the names \<open>CA00000003\<close> and \<open>XS00000020\<close>,
  an entry whose read comes short and an entry of zero bytes.
\<close>

definition sha256_cert :: "u8 list" where
  "sha256_cert = [0, 1, 0, 5] @ replicate 0xBC 0 @ [0, 0, 0, 2] @ replicate 0xBC 1"

definition example_env :: cert_env where
  "example_env = \<lparr>
     SAVE_FS_LIST_MAX_NAME_LENGTH = 0x40,
     savefile_opens = True,
     save_lookup = (\<lambda>p.
        if p = ''/certificate/CA00000003'' then Some \<lparr>entry_size = 0x180, entry_read = ecsda_cert\<rparr>
        else if p = ''/certificate/XS00000020'' then Some \<lparr>entry_size = 0x180, entry_read = sha256_cert\<rparr>
        else if p = ''/certificate/short'' then Some \<lparr>entry_size = 0x180, entry_read = take 0x100 ecsda_cert\<rparr>
        else if p = ''/certificate/wrong'' then Some \<lparr>entry_size = 0x180, entry_read = replicate 0x180 0\<rparr>
        else None),
     calloc_ok = True,
     zero_type = CertType_Invalid,
     malloc_ok = True,
     malloc_content = (\<lambda>i. 0xAA) \<rparr>"

definition loaded :: "CertType \<Rightarrow> u8 list \<Rightarrow> Certificate" where
  "loaded t bytes = \<lparr>type_c = t, size_c = 0x180, data_c = bytes @ replicate 0x380 0\<rparr>"

text \<open>
  All the tokens that repeated calls of \<open>strtok\<close> return from a saved position on, and,
  for comparison, the tokens of a text as the specification describes them: the text is
  cut at every \<open>-\<close>, and the pieces that are not empty are the tokens, in order.
\<close>

function strtok_all :: "string \<Rightarrow> string list" where
  "strtok_all saved =
     (case strtok saved of
        None \<Rightarrow> []
      | Some (pch, saved') \<Rightarrow> pch # strtok_all saved')"
  by pat_completeness auto
termination
  by (relation "measure length") (auto dest: strtok_shorter)

fun split_dash :: "string \<Rightarrow> string list" where
  "split_dash [] = [[]]"
| "split_dash (c # s) =
     (if c = CHR ''-'' then [] # split_dash s
      else (case split_dash s of f # fs \<Rightarrow> (c # f) # fs | [] \<Rightarrow> [[c]]))"

definition issuer_tokens :: "string \<Rightarrow> string list" where
  "issuer_tokens s = filter (\<lambda>t. t \<noteq> []) (split_dash s)"

text \<open>
  Examples: the chain that \<open>certGenerateRawCertificateChainBySignatureIssuer\<close> starts
  from, and a save file whose only entry has the longest path that a lookup can form.
\<close>

definition zero_chain :: CertificateChain where
  "zero_chain = \<lparr>count = 0, certs = None\<rparr>"

definition long_name :: string where
  "long_name = ''aaaaaaaaaaaaaaaaaaaaaaaaaaaaaaaaaaaaaaaaaaaaaaaaaaaaaaaaaaaaaaa''"

definition long_env :: cert_env where
  "long_env = example_env\<lparr>save_lookup := (\<lambda>p.
      if p = ''/certificate/aaaaaaaaaaaaaaaaaaaaaaaaaaaaaaaaaaaaaaaaaaaaaaaaaa''
      then Some \<lparr>entry_size = 0x180, entry_read = ecsda_cert\<rparr> else None)\<rparr>"

text \<open>The bytes of a certificate: the first \<open>size\<close> bytes of its \<open>data\<close> array.\<close>

definition cert_bytes :: "Certificate \<Rightarrow> u8 list" where
  "cert_bytes c = take (unat (size_c c)) (data_c c)"

section \<open>usb.c: session state and transfers\<close>

text \<open>
  \<open>USB_TRANSFER_BUFFER_SIZE\<close> comes from \<open>usb.h\<close> and \<open>FS_MAX_PATH\<close> from the platform
  library; \<open>sizeof(UsbCommandSendFileProperties)\<close> depends on the latter. They are taken
  as a parameter. The log messages of \<open>usb.c\<close> are left out: they change nothing and no
  value depends on them. Of the transfer buffer, its address and the status block that is
  read back from it are kept; the command that \<open>usbSendCommand\<close> reads from the header is
  used in messages only.
\<close>

record usb_config =
  USB_TRANSFER_BUFFER_SIZE :: u64
  FS_MAX_PATH :: u32
  sizeof_UsbCommandSendFileProperties :: u64

definition USB_CMD_HEADER_MAGIC :: u32 where "USB_CMD_HEADER_MAGIC = 0x4E584454"
definition USB_TRANSFER_ALIGNMENT :: u64 where "USB_TRANSFER_ALIGNMENT = 0x1000"

definition sizeof_UsbCommandHeader :: u64 where "sizeof_UsbCommandHeader = 0x10"
definition sizeof_UsbCommandStartSession :: u64 where "sizeof_UsbCommandStartSession = 0x10"
definition sizeof_UsbStatus :: u64 where "sizeof_UsbStatus = 0x10"

definition UsbStatusType_Success :: u32 where "UsbStatusType_Success = 0"
definition UsbStatusType_InvalidCommandSize :: u32 where "UsbStatusType_InvalidCommandSize = 1"
definition UsbStatusType_WriteCommandFailed :: u32 where "UsbStatusType_WriteCommandFailed = 2"
definition UsbStatusType_ReadStatusFailed :: u32 where "UsbStatusType_ReadStatusFailed = 3"
definition UsbStatusType_InvalidMagicWord :: u32 where "UsbStatusType_InvalidMagicWord = 4"

text \<open>
  The status block as the code reads it back from the transfer buffer: two native
  (little-endian) 32-bit loads.
\<close>

record UsbStatus =
  magic :: u32
  status :: u32

text \<open>One call of \<open>usbRead\<close> or \<open>usbWrite\<close>: the size asked for and the result.\<close>

datatype usb_io = UsbWrite u64 bool | UsbRead u64 bool

text \<open>
  The globals of \<open>usb.c\<close> that the transfer functions consult or change. Pointers are
  addresses, \<open>0\<close> for \<open>NULL\<close>; of the two endpoints only whether they are non-null matters;
  \<open>g_usbTimeoutEvent\<close> is whether the event has been signalled; \<open>usb_io\<close> lists the calls
  of \<open>usbRead\<close> and \<open>usbWrite\<close> so far. Every public function holds \<open>g_usbDeviceLock\<close>
  from entry to return, and the detection thread holds it through each iteration, so
  the functions below are the atomic steps of the module.
\<close>

record usb_state =
  g_usbTransferBuffer :: u64
  g_usbDeviceInterfaceInitialized :: bool
  interface_initialized :: bool
  endpoint_in :: bool
  endpoint_out :: bool
  endpoint_in_zlt :: bool
  g_usbHostAvailable :: bool
  g_usbSessionStarted :: bool
  g_usbDetectionThreadExitFlag :: bool
  g_usbTransferRemainingSize :: u64
  g_usbTimeoutEvent :: bool
  usb_io :: "usb_io list"

text \<open>
  What the platform and the host do during one call of \<open>usbTransferData\<close>:
  \<open>usbIsHostAvailable()\<close>, the result of posting the buffer, of \<open>eventWait\<close> (used when
  a session has started), of \<open>waitMulti\<close> with the index it selects (used otherwise), of
  fetching and of parsing the report, and the transferred size reported.
\<close>

record xfer_env =
  host_available_now :: bool
  post_ok :: bool
  event_wait_ok :: bool
  wait_multi_ok :: bool
  wait_multi_idx :: int
  report_ok :: bool
  parse_ok :: bool
  transferred_size :: u32

text \<open>What happens during one command: the write, the read, and the status block read.\<close>

record cmd_env =
  write_env :: xfer_env
  read_env :: xfer_env
  status_block :: UsbStatus

definition IS_ALIGNED :: "u64 \<Rightarrow> u64 \<Rightarrow> bool" where
  "IS_ALIGNED x a = (x AND (a - 1) = 0)"

definition usbTransferData :: "usb_state \<Rightarrow> u64 \<Rightarrow> u64 \<Rightarrow> bool \<Rightarrow> xfer_env \<Rightarrow> bool \<times> usb_state" where
  "usbTransferData st buf sz endpoint env =
     (if buf = 0 \<or> \<not> IS_ALIGNED buf USB_TRANSFER_ALIGNMENT \<or> sz = 0 \<or> \<not> endpoint
      then (False, st)
      else if \<not> host_available_now env then (False, st)
      else if \<not> post_ok env then (False, st)
      else
        let (rc_ok, st1) =
              (if g_usbSessionStarted st then (event_wait_ok env, st)
               else if wait_multi_ok env \<and> wait_multi_idx env = 1
               then (False, st\<lparr>g_usbDetectionThreadExitFlag := True\<rparr>)
               else (wait_multi_ok env, st))
        in
        if \<not> rc_ok
        then (False, if g_usbSessionStarted st1 then st1\<lparr>g_usbTimeoutEvent := True\<rparr> else st1)
        else if \<not> report_ok env then (False, st1)
        else if \<not> parse_ok env then (False, st1)
        else if ucast (transferred_size env) \<noteq> sz then (False, st1)
        else (True, st1))"

definition usbRead :: "usb_state \<Rightarrow> u64 \<Rightarrow> u64 \<Rightarrow> xfer_env \<Rightarrow> bool \<times> usb_state" where
  "usbRead st buf sz env =
     (let (ret, st1) = usbTransferData st buf sz (endpoint_out st) env
      in (ret, st1\<lparr>usb_io := usb_io st1 @ [UsbRead sz ret]\<rparr>))"

definition usbWrite :: "usb_state \<Rightarrow> u64 \<Rightarrow> u64 \<Rightarrow> xfer_env \<Rightarrow> bool \<times> usb_state" where
  "usbWrite st buf sz env =
     (let (ret, st1) = usbTransferData st buf sz (endpoint_in st) env;
          st2 = (if ret then st1\<lparr>endpoint_in_zlt := True\<rparr> else st1)
      in (ret, st2\<lparr>usb_io := usb_io st2 @ [UsbWrite sz ret]\<rparr>))"

definition usbSendCommand :: "usb_config \<Rightarrow> usb_state \<Rightarrow> u64 \<Rightarrow> cmd_env \<Rightarrow> u32 \<times> usb_state" where
  "usbSendCommand cfg st cmd_size env =
     (if cmd_size < sizeof_UsbCommandHeader \<or> cmd_size > USB_TRANSFER_BUFFER_SIZE cfg
      then (UsbStatusType_InvalidCommandSize, st)
      else
        (case usbWrite st (g_usbTransferBuffer st) cmd_size (write_env env) of
           (False, st1) \<Rightarrow> (UsbStatusType_WriteCommandFailed, st1)
         | (True, st1) \<Rightarrow>
             (case usbRead st1 (g_usbTransferBuffer st1) sizeof_UsbStatus (read_env env) of
                (False, st2) \<Rightarrow> (UsbStatusType_ReadStatusFailed, st2)
              | (True, st2) \<Rightarrow>
                  if magic (status_block env) \<noteq> bswap32 USB_CMD_HEADER_MAGIC
                  then (UsbStatusType_InvalidMagicWord, st2)
                  else (status (status_block env), st2))))"

definition usbIsReady :: "usb_state \<Rightarrow> bool" where
  "usbIsReady st = (g_usbHostAvailable st \<and> g_usbSessionStarted st)"

text \<open>
  The guard at the head of \<open>usbSendFileProperties\<close>; \<open>filename\<close> is \<open>None\<close> for a null
  pointer, and \<open>filename_length\<close> is \<open>(u32)strlen(filename)\<close>.
\<close>

definition usbSendFileProperties_invalid :: "usb_config \<Rightarrow> usb_state \<Rightarrow> string option \<Rightarrow> bool" where
  "usbSendFileProperties_invalid cfg st filename =
     (g_usbTransferBuffer st = 0 \<or> \<not> g_usbDeviceInterfaceInitialized st
      \<or> \<not> interface_initialized st \<or> \<not> g_usbHostAvailable st \<or> \<not> g_usbSessionStarted st
      \<or> g_usbTransferRemainingSize st > 0
      \<or> (case filename of
            None \<Rightarrow> True
          | Some name \<Rightarrow>
              let filename_length = (of_nat (length name) :: u32)
              in filename_length = 0 \<or> filename_length \<ge> FS_MAX_PATH cfg))"

definition usbSendFileProperties ::
    "usb_config \<Rightarrow> usb_state \<Rightarrow> u64 \<Rightarrow> string option \<Rightarrow> cmd_env \<Rightarrow> bool \<times> usb_state" where
  "usbSendFileProperties cfg st file_size filename env =
     (if usbSendFileProperties_invalid cfg st filename then (False, st)
      else
        let cmd_size = sizeof_UsbCommandHeader + sizeof_UsbCommandSendFileProperties cfg;
            (status, st1) = usbSendCommand cfg st cmd_size env
        in
        if status = UsbStatusType_Success
        then (True, st1\<lparr>g_usbTransferRemainingSize := file_size\<rparr>)
        else (False, st1))"

text \<open>The guard at the head of \<open>usbSendFileData\<close>; \<open>data\<close> is the address passed.\<close>

definition usbSendFileData_invalid :: "usb_config \<Rightarrow> usb_state \<Rightarrow> u64 \<Rightarrow> u64 \<Rightarrow> bool" where
  "usbSendFileData_invalid cfg st data data_size =
     (g_usbTransferBuffer st = 0 \<or> \<not> g_usbDeviceInterfaceInitialized st
      \<or> \<not> interface_initialized st \<or> \<not> g_usbHostAvailable st \<or> \<not> g_usbSessionStarted st
      \<or> g_usbTransferRemainingSize st = 0 \<or> data = 0 \<or> data_size = 0
      \<or> data_size > USB_TRANSFER_BUFFER_SIZE cfg \<or> data_size > g_usbTransferRemainingSize st)"

text \<open>The label \<open>end\<close> of \<open>usbSendFileData\<close>.\<close>

definition usbSendFileData_end :: "bool \<Rightarrow> usb_state \<Rightarrow> bool \<times> usb_state" where
  "usbSendFileData_end ret st =
     (ret, if \<not> ret then st\<lparr>g_usbTransferRemainingSize := 0\<rparr> else st)"

definition usbSendFileData ::
    "usb_config \<Rightarrow> usb_state \<Rightarrow> u64 \<Rightarrow> u64 \<Rightarrow> cmd_env \<Rightarrow> bool \<times> usb_state" where
  "usbSendFileData cfg st data data_size env =
     (if usbSendFileData_invalid cfg st data data_size then usbSendFileData_end False st
      else
        let buf = (if IS_ALIGNED data USB_TRANSFER_ALIGNMENT then data else g_usbTransferBuffer st)
        in
        (case usbWrite st buf data_size (write_env env) of
           (False, st1) \<Rightarrow> usbSendFileData_end False st1
         | (True, st1) \<Rightarrow>
             let st2 = st1\<lparr>g_usbTransferRemainingSize := g_usbTransferRemainingSize st1 - data_size\<rparr>
             in
             if g_usbTransferRemainingSize st2 = 0
             then
               (case usbRead st2 (g_usbTransferBuffer st2) sizeof_UsbStatus (read_env env) of
                  (False, st3) \<Rightarrow> usbSendFileData_end False st3
                | (True, st3) \<Rightarrow>
                    if magic (status_block env) \<noteq> bswap32 USB_CMD_HEADER_MAGIC
                    then usbSendFileData_end False st3
                    else usbSendFileData_end
                           (status (status_block env) = UsbStatusType_Success) st3)
             else usbSendFileData_end True st2))"

definition usbStartSession :: "usb_config \<Rightarrow> usb_state \<Rightarrow> cmd_env \<Rightarrow> bool \<times> usb_state" where
  "usbStartSession cfg st env =
     (if g_usbTransferBuffer st = 0 \<or> \<not> g_usbDeviceInterfaceInitialized st
         \<or> \<not> interface_initialized st
      then (False, st)
      else
        let cmd_size = sizeof_UsbCommandHeader + sizeof_UsbCommandStartSession;
            (status, st1) = usbSendCommand cfg st cmd_size env
        in (status = UsbStatusType_Success, st1))"

definition usbEndSession :: "usb_state \<Rightarrow> xfer_env \<Rightarrow> usb_state" where
  "usbEndSession st env =
     (if g_usbTransferBuffer st = 0 \<or> \<not> g_usbDeviceInterfaceInitialized st
         \<or> \<not> interface_initialized st \<or> \<not> g_usbHostAvailable st \<or> \<not> g_usbSessionStarted st
      then st
      else snd (usbWrite st (g_usbTransferBuffer st) sizeof_UsbCommandHeader env))"

text \<open>
  One iteration of the loop of \<open>usbDetectionThreadFunc\<close>, from the return of \<open>waitMulti\<close>
  (whether it succeeded, and the index it selected) to the end of the loop body. The
  first component tells whether the loop was left by \<open>break\<close>.
\<close>

definition usbDetectionThread_iteration ::
    "usb_config \<Rightarrow> usb_state \<Rightarrow> bool \<Rightarrow> int \<Rightarrow> bool \<Rightarrow> cmd_env \<Rightarrow> bool \<times> usb_state" where
  "usbDetectionThread_iteration cfg st rc_ok idx host_now env =
     (if \<not> rc_ok then (False, st)
      else if idx = 2 then (True, st)
      else
        let st1 = st\<lparr>g_usbHostAvailable := host_now, g_usbSessionStarted := False,
                     g_usbTransferRemainingSize := 0\<rparr>
        in
        if g_usbHostAvailable st1
        then
          let (started, st2) = usbStartSession cfg st1 env;
              st3 = st2\<lparr>g_usbSessionStarted := started\<rparr>
          in
          if \<not> g_usbSessionStarted st3 \<and> g_usbDetectionThreadExitFlag st3
          then (True, st3) else (False, st3)
        else (False, st1))"

text \<open>The code of \<open>usbDetectionThreadFunc\<close> after the loop.\<close>

definition usbDetectionThread_exit :: "usb_state \<Rightarrow> xfer_env \<Rightarrow> usb_state" where
  "usbDetectionThread_exit st env =
     (let st1 = (if g_usbHostAvailable st \<and> g_usbSessionStarted st then usbEndSession st env else st)
      in st1\<lparr>g_usbHostAvailable := False, g_usbSessionStarted := False,
              g_usbDetectionThreadExitFlag := False, g_usbTransferRemainingSize := 0\<rparr>)"

text \<open>
  The operations that change the session state, each with what its environment does, and
  a run of them in any order. An iteration of the detection thread that leaves the loop
  is followed by the code after the loop.
\<close>

datatype usb_op =
    SendFileProperties u64 "string option" cmd_env
  | SendFileData u64 u64 cmd_env
  | DetectionIteration bool int bool cmd_env xfer_env

definition usb_step :: "usb_config \<Rightarrow> usb_state \<Rightarrow> usb_op \<Rightarrow> usb_state" where
  "usb_step cfg st op =
     (case op of
        SendFileProperties file_size filename env \<Rightarrow>
          snd (usbSendFileProperties cfg st file_size filename env)
      | SendFileData data data_size env \<Rightarrow> snd (usbSendFileData cfg st data data_size env)
      | DetectionIteration rc_ok idx host_now env end_env \<Rightarrow>
          (case usbDetectionThread_iteration cfg st rc_ok idx host_now env of
             (True, st1) \<Rightarrow> usbDetectionThread_exit st1 end_env
           | (False, st1) \<Rightarrow> st1))"

definition usb_run :: "usb_config \<Rightarrow> usb_state \<Rightarrow> usb_op list \<Rightarrow> usb_state" where
  "usb_run cfg st ops = foldl (usb_step cfg) st ops"

definition usb_boot :: "usb_state \<Rightarrow> bool" where
  "usb_boot st = (\<not> g_usbHostAvailable st \<and> \<not> g_usbSessionStarted st
                  \<and> g_usbTransferRemainingSize st = 0)"

definition usb_invariant :: "usb_state \<Rightarrow> bool" where
  "usb_invariant st =
     (g_usbTransferRemainingSize st > 0 \<longrightarrow> g_usbSessionStarted st \<and> g_usbHostAvailable st)"

text \<open>Concrete values used in examples.\<close>

definition example_config :: usb_config where
  "example_config = \<lparr>USB_TRANSFER_BUFFER_SIZE = 0x800000, FS_MAX_PATH = 0x301,
                      sizeof_UsbCommandSendFileProperties = 0x320\<rparr>"

definition xfer_done :: "u32 \<Rightarrow> xfer_env" where
  "xfer_done n = \<lparr>host_available_now = True, post_ok = True, event_wait_ok = True,
                  wait_multi_ok = True, wait_multi_idx = 0, report_ok = True, parse_ok = True,
                  transferred_size = n\<rparr>"

definition host_reply :: "u32 \<Rightarrow> u32 \<Rightarrow> u32 \<Rightarrow> cmd_env" where
  "host_reply n m s = \<lparr>write_env = xfer_done n, read_env = xfer_done 0x10,
                       status_block = \<lparr>magic = m, status = s\<rparr>\<rparr>"

definition initialized_state :: usb_state where
  "initialized_state = \<lparr>g_usbTransferBuffer = 0x10000, g_usbDeviceInterfaceInitialized = True,
     interface_initialized = True, endpoint_in = True, endpoint_out = True,
     endpoint_in_zlt = False, g_usbHostAvailable = False, g_usbSessionStarted = False,
     g_usbDetectionThreadExitFlag = False, g_usbTransferRemainingSize = 0,
     g_usbTimeoutEvent = False, usb_io = []\<rparr>"

definition active_state :: "u64 \<Rightarrow> usb_state" where
  "active_state n = initialized_state\<lparr>g_usbHostAvailable := True, g_usbSessionStarted := True,
     g_usbTransferRemainingSize := n\<rparr>"

text \<open>
  The part of the state that no transfer changes; the condition that the reply to a
  command was received (the size check, the write and the read all succeeded); and a run
  used as an example: the host appears and acknowledges the session, then acknowledges
  the properties of a file of \<open>0x2000\<close> bytes.
\<close>

definition session_view :: "usb_state \<Rightarrow> u64 \<times> bool \<times> bool \<times> u64 \<times> bool \<times> bool \<times> bool \<times> bool" where
  "session_view st = (g_usbTransferRemainingSize st, g_usbHostAvailable st, g_usbSessionStarted st,
     g_usbTransferBuffer st, g_usbDeviceInterfaceInitialized st, interface_initialized st,
     endpoint_in st, endpoint_out st)"

definition usbSendCommand_reply_received :: "usb_config \<Rightarrow> usb_state \<Rightarrow> u64 \<Rightarrow> cmd_env \<Rightarrow> bool" where
  "usbSendCommand_reply_received cfg st cmd_size env =
     (\<not> (cmd_size < sizeof_UsbCommandHeader \<or> cmd_size > USB_TRANSFER_BUFFER_SIZE cfg)
      \<and> fst (usbWrite st (g_usbTransferBuffer st) cmd_size (write_env env))
      \<and> fst (usbRead (snd (usbWrite st (g_usbTransferBuffer st) cmd_size (write_env env)))
                (g_usbTransferBuffer
                   (snd (usbWrite st (g_usbTransferBuffer st) cmd_size (write_env env))))
                sizeof_UsbStatus (read_env env)))"

definition example_ops :: "usb_op list" where
  "example_ops =
     [DetectionIteration True 0 True (host_reply 0x20 0x5444584E 0) (xfer_done 0x10),
      SendFileProperties 0x2000 (Some ''dump.bin'') (host_reply 0x330 0x5444584E 0)]"

section \<open>Byte order lemmas\<close>

lemma byte_of_le32_0: "byte_of (le32 a b c d) 0 = a"
  unfolding le32_def byte_of_def
  by (rule bit_word_eqI) (simp add: bit_simps)

lemma byte_of_le32_1: "byte_of (le32 a b c d) (Suc 0) = b"
  unfolding le32_def byte_of_def
  apply (rule bit_word_eqI)
  apply (simp add: bit_simps)
  apply (auto dest: bit_imp_le_length)
  done

lemma byte_of_le32_2: "byte_of (le32 a b c d) 2 = c"
  unfolding le32_def byte_of_def
  apply (rule bit_word_eqI)
  apply (simp add: bit_simps)
  apply (auto dest: bit_imp_le_length)
  done

lemma byte_of_le32_3: "byte_of (le32 a b c d) 3 = d"
  unfolding le32_def byte_of_def
  apply (rule bit_word_eqI)
  apply (simp add: bit_simps)
  apply (auto dest: bit_imp_le_length)
  done

lemma le32_byte_of: "le32 (byte_of x 0) (byte_of x (Suc 0)) (byte_of x 2) (byte_of x 3) = x"
  unfolding le32_def byte_of_def
  apply (rule bit_word_eqI)
  apply (simp add: bit_simps)
  subgoal for n
    by (cases "n < 8"; cases "n < 16"; cases "n < 24") (auto simp: not_less)
  done

lemma be32_le32: "be32 a b c d = le32 d c b a"
  by (simp add: be32_def le32_def ac_simps)

lemma bswap32_le32: "bswap32 (le32 a b c d) = be32 a b c d"
  by (simp add: bswap32_def be32_le32 byte_of_le32_0 byte_of_le32_1 byte_of_le32_2 byte_of_le32_3)

lemma bswap32_bswap32: "bswap32 (bswap32 x) = x"
  by (simp add: bswap32_def byte_of_le32_0 byte_of_le32_1 byte_of_le32_2 byte_of_le32_3
      le32_byte_of)

lemma bswap32_memcpy_u32: "map_option bswap32 (memcpy_u32 mem off) = be32_at mem off"
  by (simp add: memcpy_u32_def be32_at_def bswap32_le32)

section \<open>The certificate type: what is recognised\<close>

lemma switch_sig_type_Some_iff:
  "(\<exists>b. switch_sig_type lay s = Some b) \<longleftrightarrow> s \<in> recognised_sig_types lay"
  by (auto simp: switch_sig_type_def recognised_sig_types_def)

lemma switch_pub_key_type_Some_iff:
  "(\<exists>b. switch_pub_key_type lay p = Some b) \<longleftrightarrow> p \<in> recognised_pub_key_types lay"
  by (auto simp: switch_pub_key_type_def recognised_pub_key_types_def)

lemma select_type_valid:
  "switch_sig_type lay s = Some b \<Longrightarrow> select_type lay s p \<noteq> CertType_Invalid"
  by (auto simp: switch_sig_type_def select_type_def CERT_TYPE_def split: if_splits)

lemma be32_at_memcpy:
  "be32_at mem off = Some v \<longleftrightarrow> (\<exists>w. memcpy_u32 mem off = Some w \<and> bswap32 w = v)"
  using bswap32_memcpy_u32[of mem off] by (cases "memcpy_u32 mem off") auto

lemmas type_run_simps =
  certGetCertificateType_def nx_layout_def memcpy_u32_def Let_def switch_sig_type_def
  switch_pub_key_type_def select_type_def CERT_TYPE_def bswap32_le32 be32_def nth_append

text \<open>
  C1. For a buffer whose stated length \<open>S\<close> lies in [\<open>CERT_MIN_SIZE\<close>, \<open>CERT_MAX_SIZE\<close>],
  \<open>certGetCertificateType\<close> returns a type other than \<open>CertType_Invalid\<close> if and only if
  the big-endian \<open>sig_type\<close> at offset 0 is one of the six recognised values, the
  big-endian \<open>pub_key_type\<close> found after the signature block and the issuer is one of the
  three recognised values, and the end offset (signature block, issuer, \<open>pub_key_type\<close>,
  name, \<open>cert_id\<close>, public key block) is exactly \<open>S\<close>.
\<close>

theorem certGetCertificateType_valid_iff:
  assumes "CERT_MIN_SIZE lay \<le> S" and "S \<le> CERT_MAX_SIZE lay"
  shows "(\<exists>t. ret_type (certGetCertificateType lay (Some mem) S) = Some t \<and> t \<noteq> CertType_Invalid)
     \<longleftrightarrow>
     (\<exists>sig_type pub_key_type sig_block pk_block.
        be32_at mem 0 = Some sig_type \<and> sig_type \<in> recognised_sig_types lay \<and>
        switch_sig_type lay sig_type = Some sig_block \<and>
        be32_at mem (unat (sig_block + sizeof_issuer lay)) = Some pub_key_type \<and>
        pub_key_type \<in> recognised_pub_key_types lay \<and>
        switch_pub_key_type lay pub_key_type = Some pk_block \<and>
        sig_block + sizeof_issuer lay + sizeof_pub_key_type lay + sizeof_name lay
          + sizeof_cert_id lay + pk_block = S)"
  (is "?L \<longleftrightarrow> ?R")
proof
  assume ?L
  then show ?R
    using assms switch_sig_type_Some_iff[of lay] switch_pub_key_type_Some_iff[of lay]
    by (auto simp: certGetCertificateType_def be32_at_memcpy Let_def not_less
        split: option.splits if_splits)
next
  assume ?R
  then obtain sig_type pub_key_type sig_block pk_block where
    r: "be32_at mem 0 = Some sig_type" "switch_sig_type lay sig_type = Some sig_block"
       "be32_at mem (unat (sig_block + sizeof_issuer lay)) = Some pub_key_type"
       "switch_pub_key_type lay pub_key_type = Some pk_block"
       "sig_block + sizeof_issuer lay + sizeof_pub_key_type lay + sizeof_name lay
          + sizeof_cert_id lay + pk_block = S"
    by blast
  from r(1) obtain w0 where w0: "memcpy_u32 mem 0 = Some w0" "bswap32 w0 = sig_type"
    by (auto simp: be32_at_memcpy)
  from r(3) obtain w1 where
    w1: "memcpy_u32 mem (unat (sig_block + sizeof_issuer lay)) = Some w1"
        "bswap32 w1 = pub_key_type"
    by (auto simp: be32_at_memcpy)
  have "ret_type (certGetCertificateType lay (Some mem) S)
          = Some (select_type lay sig_type pub_key_type)"
    using assms w0 w1 r(2,4,5)
    by (auto simp add: certGetCertificateType_def Let_def)
  then show ?L
    using select_type_valid[OF r(2)] by simp
qed

theorem certGetCertificateType_valid_iff_witness:
  "CERT_MIN_SIZE nx_layout \<le> 0x180 \<and> 0x180 \<le> CERT_MAX_SIZE nx_layout \<and>
   ((\<exists>t. ret_type (certGetCertificateType nx_layout (Some ecsda_cert) 0x180) = Some t
          \<and> t \<noteq> CertType_Invalid)
     \<longleftrightarrow>
     (\<exists>sig_type pub_key_type sig_block pk_block.
        be32_at ecsda_cert 0 = Some sig_type \<and> sig_type \<in> recognised_sig_types nx_layout \<and>
        switch_sig_type nx_layout sig_type = Some sig_block \<and>
        be32_at ecsda_cert (unat (sig_block + sizeof_issuer nx_layout)) = Some pub_key_type \<and>
        pub_key_type \<in> recognised_pub_key_types nx_layout \<and>
        switch_pub_key_type nx_layout pub_key_type = Some pk_block \<and>
        sig_block + sizeof_issuer nx_layout + sizeof_pub_key_type nx_layout
          + sizeof_name nx_layout + sizeof_cert_id nx_layout + pk_block = 0x180)) \<and>
   ret_type (certGetCertificateType nx_layout (Some ecsda_cert) 0x180)
     = Some CertType_SigEcsda240_PubKeyEcsda240"
proof -
  have a: "CERT_MIN_SIZE nx_layout \<le> 0x180" and b: "0x180 \<le> CERT_MAX_SIZE nx_layout"
    by (simp_all add: nx_layout_def)
  have c: "ret_type (certGetCertificateType nx_layout (Some ecsda_cert) 0x180)
             = Some CertType_SigEcsda240_PubKeyEcsda240"
    by (simp add: type_run_simps ecsda_cert_def)
  show ?thesis
    using certGetCertificateType_valid_iff[OF a b, of ecsda_cert] a b c by blast
qed

section \<open>The certificate type: what is read\<close>

text \<open>
  When the type returned is not \<open>CertType_Invalid\<close>, both copies lie inside the first
  \<open>data_size\<close> bytes, as long as the end offset did not wrap around.
\<close>

lemma certGetCertificateType_valid_reads:
  assumes "ret_type (certGetCertificateType lay (Some mem) S) = Some t" "t \<noteq> CertType_Invalid"
  shows "\<exists>sig_block pk_block.
           reads (certGetCertificateType lay (Some mem) S)
             = [(0, 4), (unat (sig_block + sizeof_issuer lay), 4)] \<and>
           sig_block + sizeof_issuer lay + sizeof_pub_key_type lay + sizeof_name lay
             + sizeof_cert_id lay + pk_block = S"
  using assms
  by (auto simp: certGetCertificateType_def Let_def split: option.splits if_splits)

text \<open>
  Once the signature type is recognised, the second copy starts behind the signature
  block and the issuer, wherever that is: \<open>data_size\<close> plays no part in it.
\<close>

lemma certGetCertificateType_second_read:
  assumes "CERT_MIN_SIZE lay \<le> S" and "S \<le> CERT_MAX_SIZE lay"
    and "be32_at mem 0 = Some sig_type" and "switch_sig_type lay sig_type = Some sig_block"
  shows "reads (certGetCertificateType lay (Some mem) S)
           = [(0, 4), (unat (sig_block + sizeof_issuer lay), 4)]"
proof -
  obtain w0 where w0: "memcpy_u32 mem 0 = Some w0" "bswap32 w0 = sig_type"
    using assms(3) by (auto simp: be32_at_memcpy)
  have "\<not> (S < CERT_MIN_SIZE lay \<or> CERT_MAX_SIZE lay < S)"
    using assms(1,2) by (simp add: not_less)
  then show ?thesis
    using w0 assms(4)
    by (simp add: certGetCertificateType_def Let_def split: option.splits)
qed

text \<open>
  C6. Every byte that \<open>certGetCertificateType\<close> reads lies in the first \<open>S\<close> bytes of the
  buffer. The code breaks this: on a buffer of \<open>0x180\<close> bytes (the smallest accepted
  size) that announces an RSA-4096 signature, the second \<open>memcpy\<close> reads the four bytes
  at offset \<open>0x280\<close>, behind the end of the buffer.
\<close>

theorem certGetCertificateType_reads_past_size:
  "CERT_MIN_SIZE nx_layout \<le> 0x180 \<and> 0x180 \<le> CERT_MAX_SIZE nx_layout \<and>
   length short_rsa4096_buffer = 0x180 \<and>
   be32_at short_rsa4096_buffer 0 = Some (SignatureType_Rsa4096Sha1 nx_layout) \<and>
   certGetCertificateType nx_layout (Some short_rsa4096_buffer) 0x180
     = \<lparr>ret_type = None, reads = [(0, 4), (0x280, 4)], type_log = []\<rparr> \<and>
   certGetCertificateType nx_layout (Some (short_rsa4096_buffer @ replicate 0x380 0)) 0x180
     = \<lparr>ret_type = Some CertType_Invalid, reads = [(0, 4), (0x280, 4)],
        type_log = [Log_EndOffsetMismatch 0x500 0x180]\<rparr>"
  by (simp add: type_run_simps be32_at_def short_rsa4096_buffer_def)

section \<open>usb.c: properties\<close>

lemma usbTransferData_view:
  "session_view (snd (usbTransferData st buf sz ep env)) = session_view st"
  by (simp add: usbTransferData_def Let_def session_view_def)

lemma usbTransferData_io:
  "usb_io (snd (usbTransferData st buf sz ep env)) = usb_io st"
  by (simp add: usbTransferData_def Let_def)

lemma usbWrite_view: "session_view (snd (usbWrite st buf sz env)) = session_view st"
  using usbTransferData_view[of st buf sz "endpoint_in st" env]
  by (cases "usbTransferData st buf sz (endpoint_in st) env") (simp add: usbWrite_def session_view_def)

lemma usbWrite_io: "usb_io (snd (usbWrite st buf sz env)) = usb_io st @ [UsbWrite sz (fst (usbWrite st buf sz env))]"
  using usbTransferData_io[of st buf sz "endpoint_in st" env]
  by (cases "usbTransferData st buf sz (endpoint_in st) env") (simp add: usbWrite_def)

lemma usbRead_view: "session_view (snd (usbRead st buf sz env)) = session_view st"
  using usbTransferData_view[of st buf sz "endpoint_out st" env]
  by (cases "usbTransferData st buf sz (endpoint_out st) env") (simp add: usbRead_def session_view_def)

lemma usbRead_io: "usb_io (snd (usbRead st buf sz env)) = usb_io st @ [UsbRead sz (fst (usbRead st buf sz env))]"
  using usbTransferData_io[of st buf sz "endpoint_out st" env]
  by (cases "usbTransferData st buf sz (endpoint_out st) env") (simp add: usbRead_def)

lemma usbSendCommand_view: "session_view (snd (usbSendCommand cfg st cmd_size env)) = session_view st"
proof -
  obtain rw sw where w: "usbWrite st (g_usbTransferBuffer st) cmd_size (write_env env) = (rw, sw)"
    by fastforce
  obtain rr sr where r: "usbRead sw (g_usbTransferBuffer sw) sizeof_UsbStatus (read_env env) = (rr, sr)"
    by fastforce
  have "session_view sw = session_view st"
    using usbWrite_view[of st "g_usbTransferBuffer st" cmd_size "write_env env"] w by simp
  moreover have "session_view sr = session_view sw"
    using usbRead_view[of sw "g_usbTransferBuffer sw" sizeof_UsbStatus "read_env env"] r by simp
  ultimately show ?thesis
    using w r by (simp add: usbSendCommand_def split: bool.splits)
qed


lemma usbSendFileData_valid_unfold:
  assumes "\<not> usbSendFileData_invalid cfg st data n"
    and "usbWrite st (if IS_ALIGNED data USB_TRANSFER_ALIGNMENT then data else g_usbTransferBuffer st)
           n (write_env env) = (rw, sw)"
    and "usbRead (sw\<lparr>g_usbTransferRemainingSize := g_usbTransferRemainingSize sw - n\<rparr>)
           (g_usbTransferBuffer sw) sizeof_UsbStatus (read_env env) = (rr, sr)"
  shows "usbSendFileData cfg st data n env =
     (if \<not> rw then usbSendFileData_end False sw
      else if g_usbTransferRemainingSize sw - n = 0
      then (if \<not> rr then usbSendFileData_end False sr
            else if magic (status_block env) \<noteq> bswap32 USB_CMD_HEADER_MAGIC
            then usbSendFileData_end False sr
            else usbSendFileData_end (status (status_block env) = UsbStatusType_Success) sr)
      else usbSendFileData_end True
             (sw\<lparr>g_usbTransferRemainingSize := g_usbTransferRemainingSize sw - n\<rparr>))"
  using assms
  by (cases rw; cases "g_usbTransferRemainingSize sw - n = 0"; cases rr)
     (simp_all add: usbSendFileData_def Let_def)

text \<open>
  C2. Every call of \<open>usbSendFileData\<close> that returns true was made with a session active
  and a chunk size \<open>n\<close> with \<open>0 < n \<le> min(remaining, USB_TRANSFER_BUFFER_SIZE)\<close>; it
  lowers the remaining size by exactly \<open>n\<close> (so the remaining size never grows), and it
  reads a status block of 16 bytes from the host exactly when the remaining size has
  reached 0: the calls it adds to the I/O trace are the write of the chunk, followed
  by that one read in this case and by nothing otherwise.
\<close>

theorem usbSendFileData_success:
  assumes "usbSendFileData cfg st data n env = (True, st')"
  shows "0 < n \<and> n \<le> g_usbTransferRemainingSize st \<and> n \<le> USB_TRANSFER_BUFFER_SIZE cfg
         \<and> usbIsReady st
         \<and> g_usbTransferRemainingSize st' = g_usbTransferRemainingSize st - n
         \<and> unat (g_usbTransferRemainingSize st') + unat n = unat (g_usbTransferRemainingSize st)
         \<and> g_usbTransferRemainingSize st' \<le> g_usbTransferRemainingSize st
         \<and> usb_io st' = usb_io st @ [UsbWrite n True]
              @ (if g_usbTransferRemainingSize st' = 0 then [UsbRead sizeof_UsbStatus True] else [])"
proof -
  let ?buf = "if IS_ALIGNED data USB_TRANSFER_ALIGNMENT then data else g_usbTransferBuffer st"
  from assms have valid: "\<not> usbSendFileData_invalid cfg st data n"
    by (auto simp: usbSendFileData_def usbSendFileData_end_def)
  then have pre: "n \<noteq> 0" "n \<le> g_usbTransferRemainingSize st" "n \<le> USB_TRANSFER_BUFFER_SIZE cfg"
    "usbIsReady st"
    by (auto simp: usbSendFileData_invalid_def usbIsReady_def not_less)
  obtain rw sw where w: "usbWrite st ?buf n (write_env env) = (rw, sw)"
    by fastforce
  let ?s2 = "sw\<lparr>g_usbTransferRemainingSize := g_usbTransferRemainingSize sw - n\<rparr>"
  obtain rr sr where r: "usbRead ?s2 (g_usbTransferBuffer sw) sizeof_UsbStatus (read_env env) = (rr, sr)"
    by fastforce
  note unf = usbSendFileData_valid_unfold[OF valid w r]
  have sw: "g_usbTransferRemainingSize sw = g_usbTransferRemainingSize st"
    "usb_io sw = usb_io st @ [UsbWrite n rw]"
    using usbWrite_view[of st ?buf n "write_env env"] usbWrite_io[of st ?buf n "write_env env"] w
    by (simp_all add: session_view_def)
  have sr: "g_usbTransferRemainingSize sr = g_usbTransferRemainingSize sw - n"
    "usb_io sr = usb_io sw @ [UsbRead sizeof_UsbStatus rr]"
    using usbRead_view[of ?s2 "g_usbTransferBuffer sw" sizeof_UsbStatus "read_env env"]
      usbRead_io[of ?s2 "g_usbTransferBuffer sw" sizeof_UsbStatus "read_env env"] r
    by (simp_all add: session_view_def)
  have rw: "rw"
    using assms unf by (cases rw) (simp_all add: usbSendFileData_end_def)
  have res: "(if g_usbTransferRemainingSize sw - n = 0
      then (if \<not> rr then usbSendFileData_end False sr
            else if magic (status_block env) \<noteq> bswap32 USB_CMD_HEADER_MAGIC
            then usbSendFileData_end False sr
            else usbSendFileData_end (status (status_block env) = UsbStatusType_Success) sr)
      else usbSendFileData_end True ?s2) = (True, st')"
    using assms unf rw by simp
  have rem: "g_usbTransferRemainingSize st' = g_usbTransferRemainingSize st - n"
    using res sw(1) sr(1)
    by (auto simp: usbSendFileData_end_def split: if_splits)
  have io: "usb_io st' = usb_io st @ [UsbWrite n True]
              @ (if g_usbTransferRemainingSize st' = 0 then [UsbRead sizeof_UsbStatus True] else [])"
    using res rw sw sr rem
    by (auto simp: usbSendFileData_end_def split: if_splits)
  have le: "g_usbTransferRemainingSize st - n \<le> g_usbTransferRemainingSize st"
    using pre(2) by (simp add: word_sub_le)
  have un: "unat (g_usbTransferRemainingSize st - n) + unat n = unat (g_usbTransferRemainingSize st)"
    using pre(2) by (simp add: unat_sub word_le_nat_alt)
  show ?thesis
    using pre rem io le un by (simp add: word_neq_0_conv)
qed

text \<open>
  C9. Every call of \<open>usbSendFileData\<close> that returns false leaves the remaining size at
  0. This includes the calls that fail the argument checks only (a null \<open>data\<close>, a zero
  \<open>data_size\<close>, a \<open>data_size\<close> above the remaining size): they return false and change
  nothing but the remaining size, which they reset.
\<close>

theorem usbSendFileData_failure_resets:
  "(usbSendFileData_invalid cfg st data n \<longrightarrow>
      usbSendFileData cfg st data n env = (False, st\<lparr>g_usbTransferRemainingSize := 0\<rparr>))
   \<and> (\<not> fst (usbSendFileData cfg st data n env) \<longrightarrow>
      g_usbTransferRemainingSize (snd (usbSendFileData cfg st data n env)) = 0)"
proof (cases "usbSendFileData_invalid cfg st data n")
  case True
  then show ?thesis by (simp add: usbSendFileData_def usbSendFileData_end_def)
next
  case False
  let ?buf = "if IS_ALIGNED data USB_TRANSFER_ALIGNMENT then data else g_usbTransferBuffer st"
  obtain rw sw where w: "usbWrite st ?buf n (write_env env) = (rw, sw)"
    by fastforce
  let ?s2 = "sw\<lparr>g_usbTransferRemainingSize := g_usbTransferRemainingSize sw - n\<rparr>"
  obtain rr sr where r: "usbRead ?s2 (g_usbTransferBuffer sw) sizeof_UsbStatus (read_env env) = (rr, sr)"
    by fastforce
  show ?thesis
    using False usbSendFileData_valid_unfold[OF False w r]
    by (simp add: usbSendFileData_end_def)
qed


lemmas usb_eval_simps =
  usbSendFileData_def usbSendFileData_invalid_def usbSendFileData_end_def
  usbSendFileProperties_def usbSendFileProperties_invalid_def usbSendCommand_def
  usbStartSession_def usbEndSession_def usbDetectionThread_iteration_def
  usbDetectionThread_exit_def usbWrite_def usbRead_def usbTransferData_def IS_ALIGNED_def
  USB_TRANSFER_ALIGNMENT_def sizeof_UsbStatus_def sizeof_UsbCommandHeader_def
  sizeof_UsbCommandStartSession_def USB_CMD_HEADER_MAGIC_def UsbStatusType_Success_def
  UsbStatusType_InvalidMagicWord_def example_config_def xfer_done_def host_reply_def
  initialized_state_def active_state_def Let_def usbIsReady_def

lemma bswap_magic: "bswap32 0x4E584454 = 0x5444584E"
  by (simp add: bswap32_def le32_def byte_of_def)

theorem usbSendFileData_success_witness:
  "usbSendFileData example_config (active_state 0x2000) 0x20000 0x1000 (host_reply 0x1000 0 0)
     = (True, (active_state 0x1000)\<lparr>endpoint_in_zlt := True, usb_io := [UsbWrite 0x1000 True]\<rparr>)
   \<and> usbSendFileData example_config (active_state 0x1000) 0x20000 0x1000
        (host_reply 0x1000 0x5444584E 0)
     = (True, (active_state 0)\<lparr>endpoint_in_zlt := True,
                 usb_io := [UsbWrite 0x1000 True, UsbRead 0x10 True]\<rparr>)
   \<and> usbIsReady (active_state 0x1000)
   \<and> g_usbTransferRemainingSize
        ((active_state 0)\<lparr>endpoint_in_zlt := True,
            usb_io := [UsbWrite 0x1000 True, UsbRead 0x10 True]\<rparr>)
       = g_usbTransferRemainingSize (active_state 0x1000) - 0x1000"
proof -
  have a: "usbSendFileData example_config (active_state 0x2000) 0x20000 0x1000 (host_reply 0x1000 0 0)
     = (True, (active_state 0x1000)\<lparr>endpoint_in_zlt := True, usb_io := [UsbWrite 0x1000 True]\<rparr>)"
    by (simp add: usb_eval_simps)
  have b: "usbSendFileData example_config (active_state 0x1000) 0x20000 0x1000
        (host_reply 0x1000 0x5444584E 0)
     = (True, (active_state 0)\<lparr>endpoint_in_zlt := True,
                 usb_io := [UsbWrite 0x1000 True, UsbRead 0x10 True]\<rparr>)"
    by (simp add: usb_eval_simps bswap_magic)
  show ?thesis
    using a b usbSendFileData_success[OF b] by simp
qed

theorem usbSendFileData_failure_resets_witness:
  "usbSendFileData_invalid example_config (active_state 0x2000) 0 0x1000
   \<and> usbSendFileData example_config (active_state 0x2000) 0 0x1000 (host_reply 0x1000 0 0)
       = (False, (active_state 0x2000)\<lparr>g_usbTransferRemainingSize := 0\<rparr>)
   \<and> \<not> fst (usbSendFileData example_config (active_state 0x2000) 0 0x1000 (host_reply 0x1000 0 0))
   \<and> g_usbTransferRemainingSize
        (snd (usbSendFileData example_config (active_state 0x2000) 0 0x1000 (host_reply 0x1000 0 0))) = 0
   \<and> g_usbTransferRemainingSize (active_state 0x2000) = 0x2000"
proof -
  have a: "usbSendFileData_invalid example_config (active_state 0x2000) 0 0x1000"
    by (simp add: usbSendFileData_invalid_def)
  have b: "g_usbTransferRemainingSize (active_state 0x2000) = 0x2000"
    by (simp add: active_state_def)
  show ?thesis
    using a b usbSendFileData_failure_resets[of example_config "active_state 0x2000" 0 "0x1000"
        "host_reply 0x1000 0 0"]
    by simp
qed


lemma usbSendCommand_received:
  assumes "usbSendCommand_reply_received cfg st cmd_size env"
  shows "fst (usbSendCommand cfg st cmd_size env) =
     (if magic (status_block env) \<noteq> bswap32 USB_CMD_HEADER_MAGIC
      then UsbStatusType_InvalidMagicWord else status (status_block env))"
proof -
  obtain rw sw where w: "usbWrite st (g_usbTransferBuffer st) cmd_size (write_env env) = (rw, sw)"
    by fastforce
  obtain rr sr where r: "usbRead sw (g_usbTransferBuffer sw) sizeof_UsbStatus (read_env env) = (rr, sr)"
    by fastforce
  from assms w r have "rw" "rr" "\<not> (cmd_size < sizeof_UsbCommandHeader \<or> cmd_size > USB_TRANSFER_BUFFER_SIZE cfg)"
    by (simp_all add: usbSendCommand_reply_received_def)
  then show ?thesis
    using w r by (simp add: usbSendCommand_def)
qed

lemma magic_big_endian:
  "bswap32 m \<noteq> USB_CMD_HEADER_MAGIC \<longleftrightarrow> m \<noteq> bswap32 USB_CMD_HEADER_MAGIC"
  using bswap32_bswap32 by metis

lemma usbSendFileProperties_valid_unfold:
  assumes "\<not> usbSendFileProperties_invalid cfg st filename"
  shows "usbSendFileProperties cfg st file_size filename env =
     (if fst (usbSendCommand cfg st (sizeof_UsbCommandHeader + sizeof_UsbCommandSendFileProperties cfg) env)
           = UsbStatusType_Success
      then (True, (snd (usbSendCommand cfg st
                     (sizeof_UsbCommandHeader + sizeof_UsbCommandSendFileProperties cfg) env))
                    \<lparr>g_usbTransferRemainingSize := file_size\<rparr>)
      else (False, snd (usbSendCommand cfg st
                     (sizeof_UsbCommandHeader + sizeof_UsbCommandSendFileProperties cfg) env)))"
  using assms
  by (cases "usbSendCommand cfg st (sizeof_UsbCommandHeader + sizeof_UsbCommandSendFileProperties cfg) env")
     (simp add: usbSendFileProperties_def Let_def)

text \<open>
  C7. When the host's reply to a command has been received and its magic field, read
  big-endian, is not \<open>0x4E584454\<close>, \<open>usbSendCommand\<close> yields \<open>InvalidMagicWord\<close>. When
  \<open>usbSendFileProperties\<close> passes its argument checks and the command yields any status
  but \<open>Success\<close>, it returns false and the remaining size stays 0: it is not set to the
  file size.
\<close>

theorem usbSendCommand_invalid_magic:
  "(usbSendCommand_reply_received cfg st cmd_size env \<longrightarrow>
      bswap32 (magic (status_block env)) \<noteq> USB_CMD_HEADER_MAGIC \<longrightarrow>
      fst (usbSendCommand cfg st cmd_size env) = UsbStatusType_InvalidMagicWord)
   \<and> (\<not> usbSendFileProperties_invalid cfg st filename \<longrightarrow>
      fst (usbSendCommand cfg st
             (sizeof_UsbCommandHeader + sizeof_UsbCommandSendFileProperties cfg) env)
        \<noteq> UsbStatusType_Success \<longrightarrow>
      \<not> fst (usbSendFileProperties cfg st file_size filename env)
      \<and> g_usbTransferRemainingSize (snd (usbSendFileProperties cfg st file_size filename env)) = 0
      \<and> g_usbTransferRemainingSize st = 0)"
proof (intro conjI impI)
  assume "usbSendCommand_reply_received cfg st cmd_size env"
    and "bswap32 (magic (status_block env)) \<noteq> USB_CMD_HEADER_MAGIC"
  then show "fst (usbSendCommand cfg st cmd_size env) = UsbStatusType_InvalidMagicWord"
    by (simp add: usbSendCommand_received magic_big_endian)
next
  let ?c = "usbSendCommand cfg st (sizeof_UsbCommandHeader + sizeof_UsbCommandSendFileProperties cfg) env"
  assume v: "\<not> usbSendFileProperties_invalid cfg st filename"
    and f: "fst ?c \<noteq> UsbStatusType_Success"
  have res: "usbSendFileProperties cfg st file_size filename env = (False, snd ?c)"
    using usbSendFileProperties_valid_unfold[OF v] f by simp
  have z: "g_usbTransferRemainingSize st = 0"
    using v by (simp add: usbSendFileProperties_invalid_def word_gt_0)
  have "g_usbTransferRemainingSize (snd ?c) = g_usbTransferRemainingSize st"
    using usbSendCommand_view[of cfg st _ env] by (simp add: session_view_def)
  with res z show "\<not> fst (usbSendFileProperties cfg st file_size filename env)"
    "g_usbTransferRemainingSize (snd (usbSendFileProperties cfg st file_size filename env)) = 0"
    "g_usbTransferRemainingSize st = 0"
    by simp_all
qed

theorem usbSendCommand_invalid_magic_witness:
  "usbSendCommand_reply_received example_config (active_state 0) 0x330 (host_reply 0x330 0x12345678 0)
   \<and> bswap32 (magic (status_block (host_reply 0x330 0x12345678 0))) \<noteq> USB_CMD_HEADER_MAGIC
   \<and> fst (usbSendCommand example_config (active_state 0) 0x330 (host_reply 0x330 0x12345678 0))
       = UsbStatusType_InvalidMagicWord
   \<and> \<not> usbSendFileProperties_invalid example_config (active_state 0) (Some ''dump.bin'')
   \<and> \<not> fst (usbSendFileProperties example_config (active_state 0) 0x2000 (Some ''dump.bin'')
              (host_reply 0x330 0x12345678 0))
   \<and> g_usbTransferRemainingSize
        (snd (usbSendFileProperties example_config (active_state 0) 0x2000 (Some ''dump.bin'')
                (host_reply 0x330 0x12345678 0))) = 0"
proof -
  let ?env = "host_reply 0x330 0x12345678 0"
  have a: "usbSendCommand_reply_received example_config (active_state 0) 0x330 ?env"
    by (simp add: usbSendCommand_reply_received_def usb_eval_simps)
  have b: "bswap32 (magic (status_block ?env)) \<noteq> USB_CMD_HEADER_MAGIC"
    by (simp add: host_reply_def USB_CMD_HEADER_MAGIC_def bswap32_def le32_def byte_of_def)
  have c: "\<not> usbSendFileProperties_invalid example_config (active_state 0) (Some ''dump.bin'')"
    by (simp add: usbSendFileProperties_invalid_def example_config_def active_state_def
        initialized_state_def)
  have d: "sizeof_UsbCommandHeader + sizeof_UsbCommandSendFileProperties example_config = 0x330"
    by (simp add: sizeof_UsbCommandHeader_def example_config_def)
  have e: "UsbStatusType_InvalidMagicWord \<noteq> UsbStatusType_Success"
    by (simp add: UsbStatusType_InvalidMagicWord_def UsbStatusType_Success_def)
  show ?thesis
    using a b c d e
      usbSendCommand_invalid_magic[of example_config "active_state 0" "0x330" ?env
        "Some ''dump.bin''" "0x2000"]
    by simp
qed


lemma usbSendFileProperties_invariant:
  assumes "usb_invariant st"
  shows "usb_invariant (snd (usbSendFileProperties cfg st file_size filename env))"
proof (cases "usbSendFileProperties_invalid cfg st filename")
  case True
  then show ?thesis using assms by (simp add: usbSendFileProperties_def)
next
  case False
  let ?c = "usbSendCommand cfg st (sizeof_UsbCommandHeader + sizeof_UsbCommandSendFileProperties cfg) env"
  have hs: "g_usbHostAvailable st" "g_usbSessionStarted st"
    using False by (simp_all add: usbSendFileProperties_invalid_def)
  have "session_view (snd ?c) = session_view st"
    by (rule usbSendCommand_view)
  then have "g_usbHostAvailable (snd ?c)" "g_usbSessionStarted (snd ?c)"
    using hs by (simp_all add: session_view_def)
  then show ?thesis
    using usbSendFileProperties_valid_unfold[OF False, of file_size env]
    by (simp add: usb_invariant_def)
qed

lemma usbSendFileData_invariant:
  "usb_invariant (snd (usbSendFileData cfg st data n env))"
proof (cases "usbSendFileData_invalid cfg st data n")
  case True
  then show ?thesis
    by (simp add: usbSendFileData_def usbSendFileData_end_def usb_invariant_def)
next
  case False
  let ?buf = "if IS_ALIGNED data USB_TRANSFER_ALIGNMENT then data else g_usbTransferBuffer st"
  obtain rw sw where w: "usbWrite st ?buf n (write_env env) = (rw, sw)"
    by fastforce
  let ?s2 = "sw\<lparr>g_usbTransferRemainingSize := g_usbTransferRemainingSize sw - n\<rparr>"
  obtain rr sr where r: "usbRead ?s2 (g_usbTransferBuffer sw) sizeof_UsbStatus (read_env env) = (rr, sr)"
    by fastforce
  have hs: "g_usbHostAvailable st" "g_usbSessionStarted st"
    using False by (simp_all add: usbSendFileData_invalid_def)
  have sw: "g_usbHostAvailable sw" "g_usbSessionStarted sw"
    using usbWrite_view[of st ?buf n "write_env env"] w hs
    by (simp_all add: session_view_def)
  have sr: "g_usbHostAvailable sr" "g_usbSessionStarted sr"
    using usbRead_view[of ?s2 "g_usbTransferBuffer sw" sizeof_UsbStatus "read_env env"] r sw
    by (simp_all add: session_view_def)
  show ?thesis
    using usbSendFileData_valid_unfold[OF False w r] sw sr
    by (simp add: usbSendFileData_end_def usb_invariant_def)
qed

lemma usbStartSession_remaining:
  "g_usbTransferRemainingSize (snd (usbStartSession cfg st env)) = g_usbTransferRemainingSize st"
  using usbSendCommand_view[of cfg st "sizeof_UsbCommandHeader + sizeof_UsbCommandStartSession" env]
  by (cases "usbSendCommand cfg st (sizeof_UsbCommandHeader + sizeof_UsbCommandStartSession) env")
     (simp add: usbStartSession_def session_view_def)

lemma usbDetectionThread_iteration_cases:
  "usbDetectionThread_iteration cfg st rc_ok idx host_now env = (False, st)
   \<or> usbDetectionThread_iteration cfg st rc_ok idx host_now env = (True, st)
   \<or> g_usbTransferRemainingSize (snd (usbDetectionThread_iteration cfg st rc_ok idx host_now env)) = 0"
proof (cases "rc_ok \<and> idx \<noteq> 2")
  case False
  then show ?thesis
    by (auto simp: usbDetectionThread_iteration_def)
next
  case True
  show ?thesis
  proof (cases host_now)
    case False
    with True show ?thesis
      by (simp add: usbDetectionThread_iteration_def)
  next
    case host: True
    let ?s1 = "st\<lparr>g_usbHostAvailable := True, g_usbSessionStarted := False,
                  g_usbTransferRemainingSize := 0\<rparr>"
    obtain started st2 where s: "usbStartSession cfg ?s1 env = (started, st2)"
      by fastforce
    have "g_usbTransferRemainingSize st2 = 0"
      using usbStartSession_remaining[of cfg ?s1 env] s by simp
    with True host s show ?thesis
      by (simp add: usbDetectionThread_iteration_def Let_def)
  qed
qed

lemma usbDetectionThread_exit_remaining:
  "g_usbTransferRemainingSize (usbDetectionThread_exit st env) = 0"
  by (simp add: usbDetectionThread_exit_def Let_def)

lemma usb_step_invariant:
  assumes "usb_invariant st"
  shows "usb_invariant (usb_step cfg st op)"
proof (cases op)
  case (SendFileProperties file_size filename env)
  then show ?thesis
    using usbSendFileProperties_invariant[OF assms] by (simp add: usb_step_def)
next
  case (SendFileData data n env)
  then show ?thesis
    using usbSendFileData_invariant by (simp add: usb_step_def)
next
  case (DetectionIteration rc_ok idx host_now env end_env)
  obtain b st1 where it: "usbDetectionThread_iteration cfg st rc_ok idx host_now env = (b, st1)"
    by fastforce
  have "usb_invariant (if b then usbDetectionThread_exit st1 end_env else st1)"
  proof (cases b)
    case True
    then show ?thesis
      by (simp add: usb_invariant_def usbDetectionThread_exit_remaining)
  next
    case False
    then show ?thesis
      using usbDetectionThread_iteration_cases[of cfg st rc_ok idx host_now env] it assms
      by (auto simp: usb_invariant_def)
  qed
  then show ?thesis
    using DetectionIteration it by (cases b) (simp_all add: usb_step_def)
qed

lemma usb_run_invariant:
  "usb_invariant st \<Longrightarrow> usb_invariant (usb_run cfg st ops)"
  unfolding usb_run_def
  by (induction ops arbitrary: st) (simp_all add: usb_step_invariant)

text \<open>
  C5. In every state reached from a boot state (no host, no session, remaining size 0)
  by any sequence of \<open>usbSendFileProperties\<close>, \<open>usbSendFileData\<close> and iterations of the
  detection loop, a remaining size above 0 implies that a session has started and
  the host is available.
\<close>

theorem usb_invariant_reachable:
  assumes "usb_boot st"
  shows "usb_invariant (usb_run cfg st ops)"
proof -
  from assms have "usb_invariant st"
    by (simp add: usb_boot_def usb_invariant_def)
  then show ?thesis by (rule usb_run_invariant)
qed

lemma example_run_1:
  "usb_step example_config initialized_state
      (DetectionIteration True 0 True (host_reply 0x20 0x5444584E 0) (xfer_done 0x10))
   = (active_state 0)\<lparr>endpoint_in_zlt := True, usb_io := [UsbWrite 0x20 True, UsbRead 0x10 True]\<rparr>"
  by (simp add: usb_step_def usb_eval_simps bswap_magic)

lemma example_run_2:
  "usb_step example_config
     ((active_state 0)\<lparr>endpoint_in_zlt := True, usb_io := [UsbWrite 0x20 True, UsbRead 0x10 True]\<rparr>)
     (SendFileProperties 0x2000 (Some ''dump.bin'') (host_reply 0x330 0x5444584E 0))
   = (active_state 0x2000)\<lparr>endpoint_in_zlt := True,
        usb_io := [UsbWrite 0x20 True, UsbRead 0x10 True, UsbWrite 0x330 True, UsbRead 0x10 True]\<rparr>"
  by (simp add: usb_step_def usb_eval_simps bswap_magic)

theorem usb_invariant_reachable_witness:
  "usb_boot initialized_state
   \<and> usb_invariant (usb_run example_config initialized_state example_ops)
   \<and> g_usbTransferRemainingSize (usb_run example_config initialized_state example_ops) = 0x2000
   \<and> g_usbSessionStarted (usb_run example_config initialized_state example_ops)
   \<and> g_usbHostAvailable (usb_run example_config initialized_state example_ops)"
proof -
  have a: "usb_boot initialized_state"
    by (simp add: usb_boot_def initialized_state_def)
  have b: "usb_run example_config initialized_state example_ops
     = (active_state 0x2000)\<lparr>endpoint_in_zlt := True,
        usb_io := [UsbWrite 0x20 True, UsbRead 0x10 True, UsbWrite 0x330 True, UsbRead 0x10 True]\<rparr>"
    by (simp add: usb_run_def example_ops_def example_run_1 example_run_2)
  have c: "g_usbTransferRemainingSize (usb_run example_config initialized_state example_ops) = 0x2000"
    "g_usbSessionStarted (usb_run example_config initialized_state example_ops)"
    "g_usbHostAvailable (usb_run example_config initialized_state example_ops)"
    unfolding b by (simp_all add: active_state_def)
  show ?thesis
    using a c usb_invariant_reachable[OF a, of example_config example_ops] by simp
qed

section \<open>cert.c: lookup by name\<close>

lemmas cert_eval_simps = certRetrieveCertificateByName_def example_env_def calloc_Certificate_def
  CERT_SAVEFILE_STORAGE_BASE_PATH_def type_run_simps loaded_def

lemma example_CA: "certRetrieveCertificateByName nx_layout example_env
     (Some (calloc_Certificate nx_layout example_env)) (Some ''CA00000003'')
   = Some (True, Some (loaded CertType_SigEcsda240_PubKeyEcsda240 ecsda_cert), [])"
  by (simp add: cert_eval_simps ecsda_cert_def)

lemma example_XS: "certRetrieveCertificateByName nx_layout example_env
     (Some (calloc_Certificate nx_layout example_env)) (Some ''XS00000020'')
   = Some (True, Some (loaded CertType_SigEcsda240_PubKeyEcsda240 sha256_cert), [])"
  by (simp add: cert_eval_simps sha256_cert_def)

lemma example_short: "certRetrieveCertificateByName nx_layout example_env
     (Some (calloc_Certificate nx_layout example_env)) (Some ''short'')
   = Some (False, Some \<lparr>type_c = CertType_Invalid, size_c = 0x180,
                data_c = take 0x100 ecsda_cert @ replicate 0x400 0\<rparr>,
           [Log_FailedToRead 0x180 ''short'' 0x100])"
  by (simp add: cert_eval_simps ecsda_cert_def)

lemma example_wrong: "certRetrieveCertificateByName nx_layout example_env
     (Some (calloc_Certificate nx_layout example_env)) (Some ''wrong'')
   = Some (False, Some \<lparr>type_c = CertType_Invalid, size_c = 0x180,
                data_c = replicate 0x500 0\<rparr>,
           [Log_InvalidSignatureTypeValue 0, Log_InvalidCertificateType ''wrong''])"
  by (simp add: cert_eval_simps replicate_add[symmetric])

lemma example_tok: "strtok ''CA00000003-XS00000020'' = Some (''CA00000003'', ''XS00000020'')"
  by (simp add: strtok_def)
lemma example_tok2: "strtok ''XS00000020'' = Some (''XS00000020'', [])"
  by (simp add: strtok_def)
lemma example_tok3: "strtok [] = None"
  by (simp add: strtok_def)

lemma example_copy: "issuer_copy ''Root-CA00000003-XS00000020'' = Some ''CA00000003-XS00000020''"
  by (simp add: issuer_copy_def)

lemma example_count: "certGetCertificateCountInSignatureIssuer (Some ''Root-CA00000003-XS00000020'') = Some 2"
  by (simp add: certGetCertificateCountInSignatureIssuer_def example_copy example_tok example_tok2 example_tok3)


lemma certRetrieveCertificateByName_in_range:
  assumes "n \<noteq> []" and "savefile_opens env"
    and "save_lookup env (take (SAVE_FS_LIST_MAX_NAME_LENGTH env - 1)
                            (CERT_SAVEFILE_STORAGE_BASE_PATH @ n)) = Some f"
    and "CERT_MIN_SIZE lay \<le> entry_size f" and "entry_size f \<le> CERT_MAX_SIZE lay"
  shows "certRetrieveCertificateByName lay env (Some d) (Some n) =
     (let d2 = d\<lparr>size_c := entry_size f,
                  data_c := entry_read f @ drop (length (entry_read f)) (data_c d)\<rparr>;
          br = (of_nat (length (entry_read f)) :: u64)
      in
      if br \<noteq> entry_size f then Some (False, Some d2, [Log_FailedToRead (entry_size f) n br])
      else
        (case ret_type (certGetCertificateType lay (Some (data_c d2)) (entry_size f)) of
           None \<Rightarrow> None
         | Some t \<Rightarrow>
             if t = CertType_Invalid
             then Some (False, Some (d2\<lparr>type_c := t\<rparr>),
                        type_log (certGetCertificateType lay (Some (data_c d2)) (entry_size f))
                          @ [Log_InvalidCertificateType n])
             else Some (True, Some (d2\<lparr>type_c := t\<rparr>),
                        type_log (certGetCertificateType lay (Some (data_c d2)) (entry_size f)))))"
  using assms
  by (simp add: certRetrieveCertificateByName_def Let_def not_less split: option.splits)

text \<open>
  C10. \<open>certRetrieveCertificateByName\<close> can change the certificate behind \<open>dst\<close> and
  still return false: once the size of the entry has passed the range check, every
  failure leaves \<open>size\<close> set to that size and \<open>data\<close> overwritten with the bytes that
  were read; \<open>type\<close> is untouched when the read came short and \<open>CertType_Invalid\<close> when
  the type check failed.
\<close>

theorem certRetrieveCertificateByName_failure_writes:
  assumes "n \<noteq> []" and "savefile_opens env"
    and "save_lookup env (take (SAVE_FS_LIST_MAX_NAME_LENGTH env - 1)
                            (CERT_SAVEFILE_STORAGE_BASE_PATH @ n)) = Some f"
    and "CERT_MIN_SIZE lay \<le> entry_size f" and "entry_size f \<le> CERT_MAX_SIZE lay"
    and "certRetrieveCertificateByName lay env (Some d) (Some n) = Some (False, dst', lg)"
  shows "\<exists>d'. dst' = Some d' \<and> size_c d' = entry_size f
           \<and> data_c d' = entry_read f @ drop (length (entry_read f)) (data_c d)
           \<and> type_c d' = (if of_nat (length (entry_read f)) \<noteq> entry_size f then type_c d
                           else CertType_Invalid)"
  using assms(6) unfolding certRetrieveCertificateByName_in_range[OF assms(1-5)] Let_def
  by (auto split: if_splits option.splits)

theorem certRetrieveCertificateByName_failure_writes_witness:
  "certRetrieveCertificateByName nx_layout example_env
       (Some (calloc_Certificate nx_layout example_env)) (Some ''short'')
     = Some (False, Some \<lparr>type_c = CertType_Invalid, size_c = 0x180,
                          data_c = take 0x100 ecsda_cert @ replicate 0x400 0\<rparr>,
             [Log_FailedToRead 0x180 ''short'' 0x100])
   \<and> size_c (calloc_Certificate nx_layout example_env) = 0
   \<and> data_c (calloc_Certificate nx_layout example_env) = replicate 0x500 0
   \<and> take 0x100 ecsda_cert @ replicate 0x400 0 \<noteq> replicate 0x500 0
   \<and> (\<exists>d'. Some \<lparr>type_c = CertType_Invalid, size_c = 0x180,
                   data_c = take 0x100 ecsda_cert @ replicate 0x400 0\<rparr> = Some d'
           \<and> size_c d' = 0x180)"
proof -
  let ?f = "\<lparr>entry_size = 0x180, entry_read = take 0x100 ecsda_cert\<rparr>"
  have a: "''short'' \<noteq> []" by simp
  have b: "savefile_opens example_env" by (simp add: example_env_def)
  have c: "save_lookup example_env (take (SAVE_FS_LIST_MAX_NAME_LENGTH example_env - 1)
             (CERT_SAVEFILE_STORAGE_BASE_PATH @ ''short'')) = Some ?f"
    by (simp add: example_env_def CERT_SAVEFILE_STORAGE_BASE_PATH_def)
  have d: "CERT_MIN_SIZE nx_layout \<le> entry_size ?f" and e: "entry_size ?f \<le> CERT_MAX_SIZE nx_layout"
    by (simp_all add: nx_layout_def)
  have g: "certRetrieveCertificateByName nx_layout example_env
       (Some (calloc_Certificate nx_layout example_env)) (Some ''short'')
     = Some (False, Some \<lparr>type_c = CertType_Invalid, size_c = 0x180,
                          data_c = take 0x100 ecsda_cert @ replicate 0x400 0\<rparr>,
             [Log_FailedToRead 0x180 ''short'' 0x100])"
    by (simp add: cert_eval_simps ecsda_cert_def)
  have h: "take 0x100 ecsda_cert @ replicate 0x400 0 \<noteq> replicate 0x500 (0 :: u8)"
  proof
    assume "take 0x100 ecsda_cert @ replicate 0x400 0 = replicate 0x500 (0 :: u8)"
    then have "(take 0x100 ecsda_cert @ replicate 0x400 0) ! 1 = replicate 0x500 (0 :: u8) ! 1"
      by simp
    then show False
      by (simp add: ecsda_cert_def)
  qed
  have i: "size_c (calloc_Certificate nx_layout example_env) = 0"
    "data_c (calloc_Certificate nx_layout example_env) = replicate 0x500 0"
    by (simp_all add: calloc_Certificate_def nx_layout_def)
  show ?thesis
    using g h i certRetrieveCertificateByName_failure_writes[OF a b c d e g]
    by simp
qed

section \<open>cert.c: tokens of an issuer\<close>

declare strtok_all.simps [simp del] count_loop.simps [simp del] retrieve_loop.simps [simp del]

lemma strtok_dash: "strtok (CHR ''-'' # s) = strtok s"
  by (simp add: strtok_def)

lemma strtok_nondash:
  "c \<noteq> CHR ''-'' \<Longrightarrow>
     strtok (c # s) = Some (c # takeWhile (\<lambda>c. c \<noteq> CHR ''-'') s,
                            drop 1 (dropWhile (\<lambda>c. c \<noteq> CHR ''-'') s))"
  by (simp add: strtok_def)

lemma strtok_Nil: "strtok [] = None"
  by (simp add: strtok_def)

lemma split_dash_nonempty: "split_dash s \<noteq> []"
  by (induction s) (auto split: list.splits)

lemma split_dash_unfold:
  "split_dash s = takeWhile (\<lambda>c. c \<noteq> CHR ''-'') s
     # (case dropWhile (\<lambda>c. c \<noteq> CHR ''-'') s of [] \<Rightarrow> [] | d # r \<Rightarrow> split_dash r)"
proof (induction s)
  case Nil
  show ?case by simp
next
  case (Cons c s)
  show ?case
  proof (cases "c = CHR ''-''")
    case True
    then show ?thesis by simp
  next
    case False
    obtain f fs where fs: "split_dash s = f # fs"
      using split_dash_nonempty[of s] by (cases "split_dash s") auto
    with Cons False show ?thesis by simp
  qed
qed

lemma issuer_tokens_Nil: "issuer_tokens [] = []"
  by (simp add: issuer_tokens_def)

lemma issuer_tokens_dash: "issuer_tokens (CHR ''-'' # s) = issuer_tokens s"
  by (simp add: issuer_tokens_def)

lemma tail_tokens:
  "filter (\<lambda>t. t \<noteq> []) (case xs of [] \<Rightarrow> [] | d # r \<Rightarrow> split_dash r)
     = filter (\<lambda>t. t \<noteq> []) (split_dash (drop 1 xs))"
  by (cases xs) simp_all

lemma issuer_tokens_nondash:
  assumes "c \<noteq> CHR ''-''"
  shows "issuer_tokens (c # s) = (c # takeWhile (\<lambda>c. c \<noteq> CHR ''-'') s)
           # issuer_tokens (drop 1 (dropWhile (\<lambda>c. c \<noteq> CHR ''-'') s))"
proof -
  have "split_dash (c # s) = (c # takeWhile (\<lambda>c. c \<noteq> CHR ''-'') s)
          # (case dropWhile (\<lambda>c. c \<noteq> CHR ''-'') s of [] \<Rightarrow> [] | d # r \<Rightarrow> split_dash r)"
    using split_dash_unfold[of "c # s"] assms by (simp del: split_dash.simps)
  then show ?thesis
    unfolding issuer_tokens_def
    using tail_tokens[of "dropWhile (\<lambda>c. c \<noteq> CHR ''-'') s"]
    by (simp del: split_dash.simps)
qed

lemma strtok_all_tokens: "strtok_all s = issuer_tokens s"
proof (induction s rule: length_induct)
  case (1 s)
  show ?case
  proof (cases s)
    case Nil
    then show ?thesis
      by (simp add: strtok_all.simps[of "[]"] strtok_Nil issuer_tokens_Nil)
  next
    case (Cons c r)
    show ?thesis
    proof (cases "c = CHR ''-''")
      case True
      have "strtok_all s = strtok_all r"
        using Cons True by (simp add: strtok_all.simps[of "CHR ''-'' # r"] strtok_all.simps[of r] strtok_dash)
      moreover have "strtok_all r = issuer_tokens r"
        using 1 Cons by simp
      ultimately show ?thesis
        using Cons True by (simp add: issuer_tokens_dash)
    next
      case False
      let ?rest = "drop 1 (dropWhile (\<lambda>c. c \<noteq> CHR ''-'') r)"
      have "length ?rest < length s"
        using Cons length_dropWhile_le[of "\<lambda>c. c \<noteq> CHR ''-''" r] by simp
      then have "strtok_all ?rest = issuer_tokens ?rest"
        using 1 by simp
      then show ?thesis
        using Cons False
        by (simp add: strtok_all.simps[of "c # r"] strtok_nondash issuer_tokens_nondash)
    qed
  qed
qed

lemma example_split: "issuer_tokens ''a--b-c-'' = [''a'', ''b'', ''c'']"
  by (simp add: issuer_tokens_def)

lemma length_strtok_all: "length (strtok_all s) \<le> length s"
proof (induction s rule: strtok_all.induct)
  case (1 saved)
  show ?case
  proof (cases "strtok saved")
    case None
    then show ?thesis by (simp add: strtok_all.simps[of saved])
  next
    case (Some a)
    obtain pch saved' where a: "a = (pch, saved')" by (cases a)
    have "length (strtok_all saved') \<le> length saved'"
      using 1 Some a by simp
    moreover have "length saved' < length saved"
      using strtok_shorter Some a by simp
    ultimately show ?thesis
      using Some a by (simp add: strtok_all.simps[of saved])
  qed
qed

lemma count_loop_eq: "count_loop s cnt = cnt + of_nat (length (strtok_all s))"
proof (induction s cnt rule: count_loop.induct)
  case (1 saved cnt)
  show ?case
  proof (cases "strtok saved")
    case None
    then show ?thesis
      by (simp add: count_loop.simps[of saved] strtok_all.simps[of saved])
  next
    case (Some a)
    obtain pch saved' where a: "a = (pch, saved')" by (cases a)
    then show ?thesis
      using 1 Some
      by (simp add: count_loop.simps[of saved] strtok_all.simps[of saved])
  qed
qed


section \<open>cert.c: the retrieval loop\<close>

lemma retrieve_loop_unfold:
  "retrieve_loop lay env cs saved i =
     (case strtok saved of
        None \<Rightarrow> Some (True, cs, [])
      | Some (pch, saved') \<Rightarrow>
          if \<not> unat i < length cs then None
          else
            (case certRetrieveCertificateByName lay env (Some (cs ! unat i)) (Some pch) of
               Some (ok, Some c, lg) \<Rightarrow>
                 if \<not> ok
                 then Some (False, cs[unat i := c], lg @ [Log_UnableToRetrieveCertificate pch])
                 else
                   (case retrieve_loop lay env (cs[unat i := c]) saved' (i + 1) of
                      None \<Rightarrow> None
                    | Some (success, cs', lg') \<Rightarrow> Some (success, cs', lg @ lg'))
             | _ \<Rightarrow> None))"
  by (rule retrieve_loop.simps)

lemma retrieve_loop_success:
  assumes "retrieve_loop lay env cs saved i = Some (True, cs', lg)" and "length cs < 2 ^ 32"
    and "unat i \<le> length cs"
  shows "length cs' = length cs \<and> unat i + length (strtok_all saved) \<le> length cs
         \<and> (\<forall>j < unat i. cs' ! j = cs ! j)
         \<and> (\<forall>k < length (strtok_all saved).
               \<exists>l. certRetrieveCertificateByName lay env (Some (cs ! (unat i + k)))
                      (Some (strtok_all saved ! k))
                    = Some (True, Some (cs' ! (unat i + k)), l))"
  using assms
proof (induction lay env cs saved i arbitrary: cs' lg rule: retrieve_loop.induct)
  case (1 lay env cs saved i)
  show ?case
  proof (cases "strtok saved")
    case None
    then show ?thesis
      using "1.prems" by (simp add: retrieve_loop_unfold[of lay env cs saved i] strtok_all.simps[of saved])
  next
    case (Some a)
    obtain pch saved' where a: "a = (pch, saved')" by (cases a)
    note tok = Some[unfolded a]
    have toks: "strtok_all saved = pch # strtok_all saved'"
      using tok by (simp add: strtok_all.simps[of saved])
    have i: "unat i < length cs"
      using "1.prems"(1) tok by (simp add: retrieve_loop_unfold[of lay env cs saved i] split: if_splits)
    obtain c lg1 where
      byname: "certRetrieveCertificateByName lay env (Some (cs ! unat i)) (Some pch)
                 = Some (True, Some c, lg1)"
      using "1.prems"(1) tok i
      by (auto simp: retrieve_loop_unfold[of lay env cs saved i]
          split: option.splits prod.splits if_splits)
    obtain lg2 where
      rec: "retrieve_loop lay env (cs[unat i := c]) saved' (i + 1) = Some (True, cs', lg2)"
      using "1.prems"(1) tok i byname
      by (auto simp: retrieve_loop_unfold[of lay env cs saved i] split: option.splits prod.splits)
    have suc: "unat (i + 1) = Suc (unat i)"
    proof -
      have "unat i + unat (1 :: u32) < 2 ^ LENGTH(32)"
        using i "1.prems"(2) by simp
      then show ?thesis
        using unat_add_lem[of i 1] by simp
    qed
    have ih: "length cs' = length (cs[unat i := c])
         \<and> unat (i + 1) + length (strtok_all saved') \<le> length (cs[unat i := c])
         \<and> (\<forall>j < unat (i + 1). cs' ! j = cs[unat i := c] ! j)
         \<and> (\<forall>k < length (strtok_all saved').
               \<exists>l. certRetrieveCertificateByName lay env (Some (cs[unat i := c] ! (unat (i + 1) + k)))
                      (Some (strtok_all saved' ! k))
                    = Some (True, Some (cs' ! (unat (i + 1) + k)), l))"
    proof -
      have nn: "\<not> \<not> unat i < length cs" using i by simp
      have nt: "\<not> \<not> True" by simp
      show ?thesis
        using "1.IH"[OF tok refl nn byname refl refl refl nt rec] i "1.prems"(2) suc
        by simp
    qed
    have here: "cs' ! unat i = c"
      using ih suc i by simp
    have a1: "length cs' = length cs" using ih by simp
    have a2: "unat i + length (strtok_all saved) \<le> length cs"
      using ih suc toks by simp
    have a3: "\<forall>j < unat i. cs' ! j = cs ! j"
      using ih suc by simp
    have a4: "\<exists>l. certRetrieveCertificateByName lay env (Some (cs ! (unat i + k)))
                      (Some (strtok_all saved ! k))
                    = Some (True, Some (cs' ! (unat i + k)), l)"
      if k: "k < length (strtok_all saved)" for k
    proof (cases k)
      case 0
      then show ?thesis using byname here toks by simp
    next
      case (Suc k')
      then have "k' < length (strtok_all saved')" using k toks by simp
      then obtain l where
        "certRetrieveCertificateByName lay env (Some (cs[unat i := c] ! (unat (i + 1) + k')))
           (Some (strtok_all saved' ! k')) = Some (True, Some (cs' ! (unat (i + 1) + k')), l)"
        using ih by blast
      then show ?thesis
        using Suc suc toks by simp
    qed
    show ?thesis
      using a1 a2 a3 a4 by blast
  qed
qed

lemma retrieve_loop_failure:
  assumes "retrieve_loop lay env cs saved i = Some (False, cs', lg)"
  shows "\<exists>pch. pch \<in> set (strtok_all saved) \<and> lg \<noteq> []
           \<and> last lg = Log_UnableToRetrieveCertificate pch"
  using assms
proof (induction lay env cs saved i arbitrary: cs' lg rule: retrieve_loop.induct)
  case (1 lay env cs saved i)
  show ?case
  proof (cases "strtok saved")
    case None
    then show ?thesis
      using "1.prems" by (simp add: retrieve_loop_unfold[of lay env cs saved i])
  next
    case (Some a)
    obtain pch saved' where a: "a = (pch, saved')" by (cases a)
    note tok = Some[unfolded a]
    have toks: "strtok_all saved = pch # strtok_all saved'"
      using tok by (simp add: strtok_all.simps[of saved])
    have i: "unat i < length cs"
      using "1.prems"(1) tok by (simp add: retrieve_loop_unfold[of lay env cs saved i] split: if_splits)
    obtain ok c lg1 where
      byname: "certRetrieveCertificateByName lay env (Some (cs ! unat i)) (Some pch)
                 = Some (ok, Some c, lg1)"
      using "1.prems"(1) tok i
      by (auto simp: retrieve_loop_unfold[of lay env cs saved i]
          split: option.splits prod.splits if_splits)
    show ?thesis
    proof (cases ok)
      case False
      then have "lg = lg1 @ [Log_UnableToRetrieveCertificate pch]"
        using "1.prems"(1) tok i byname
        by (simp add: retrieve_loop_unfold[of lay env cs saved i])
      then show ?thesis using toks by auto
    next
      case True
      then obtain lg2 where
        rec: "retrieve_loop lay env (cs[unat i := c]) saved' (i + 1) = Some (False, cs', lg2)"
        and lg: "lg = lg1 @ lg2"
        using "1.prems"(1) tok i byname
        by (auto simp: retrieve_loop_unfold[of lay env cs saved i] split: option.splits prod.splits)
      have nn: "\<not> \<not> unat i < length cs" using i by simp
      have nt: "\<not> \<not> ok" using True by simp
      have "\<exists>pch. pch \<in> set (strtok_all saved') \<and> lg2 \<noteq> []
           \<and> last lg2 = Log_UnableToRetrieveCertificate pch"
        using "1.IH"[OF tok refl nn byname refl refl refl nt rec] .
      then show ?thesis
        using lg toks by auto
    qed
  qed
qed


section \<open>cert.c: chains\<close>

lemma printf_noargs_plain: "CHR ''%'' \<notin> set s \<Longrightarrow> printf_noargs s = Some s"
  by (induction s rule: printf_noargs.induct) auto

lemma issuer_copy_plain:
  assumes "CHR ''%'' \<notin> set tail"
  shows "issuer_copy (''Root-'' @ tail) = Some (take 0x3F tail)"
  using printf_noargs_plain[OF assms] by (simp add: issuer_copy_def)

lemma chain_unfold:
  assumes "take 5 iss = ''Root-''"
  shows "certRetrieveCertificateChainBySignatureIssuer lay env (Some d) (Some iss) =
     (case issuer_copy iss of
        None \<Rightarrow> None
      | Some copy \<Rightarrow>
          if count_loop copy 0 = 0
          then Some (False, Some (d\<lparr>count := 0\<rparr>), [Log_InvalidSignatureIssuerString])
          else if \<not> calloc_ok env
          then Some (False, Some (d\<lparr>count := count_loop copy 0, certs := None\<rparr>),
                     [Log_UnableToAllocateChain])
          else
            (case retrieve_loop lay env
                    (replicate (unat (count_loop copy 0)) (calloc_Certificate lay env)) copy 0 of
               None \<Rightarrow> None
             | Some (success, array', lg) \<Rightarrow>
                 Some (success,
                       if success then Some (d\<lparr>count := count_loop copy 0, certs := Some array'\<rparr>)
                       else Some (d\<lparr>count := 0, certs := None\<rparr>),
                       lg)))"
proof -
  have ne: "iss \<noteq> []" using assms by auto
  show ?thesis
  proof (cases "issuer_copy iss")
    case None
    then show ?thesis
      using assms ne
      by (simp add: certRetrieveCertificateChainBySignatureIssuer_def
          certGetCertificateCountInSignatureIssuer_def)
  next
    case (Some copy)
    show ?thesis
    proof (cases "retrieve_loop lay env
                    (replicate (unat (count_loop copy 0)) (calloc_Certificate lay env)) copy 0")
      case None
      then show ?thesis
        using assms ne Some
        by (simp add: certRetrieveCertificateChainBySignatureIssuer_def
            certGetCertificateCountInSignatureIssuer_def Let_def)
    next
      case (Some r)
      obtain success array' lg where r: "r = (success, array', lg)" by (cases r)
      show ?thesis
        using assms ne \<open>issuer_copy iss = Some copy\<close> Some r
        by (simp add: certRetrieveCertificateChainBySignatureIssuer_def
            certGetCertificateCountInSignatureIssuer_def Let_def certFreeCertificateChain_def)
    qed
  qed
qed

text \<open>
  C8, as the code has it. Each of the three failure cases makes
  \<open>certRetrieveCertificateChainBySignatureIssuer\<close> return false, its only failure
  value. An issuer that does not begin with \<open>Root-\<close> leaves the chain untouched and logs
  \<open>Invalid parameters!\<close>; the issuer \<open>Root-\<close> with nothing behind it sets \<open>count\<close> to 0 and
  logs \<open>Invalid signature issuer string!\<close>; a loop that stops at a failed lookup leaves
  the chain freed (\<open>count\<close> 0, \<open>certs\<close> null), and the last message names a token of the
  issuer as the certificate that could not be retrieved.
\<close>

theorem chain_failure_cases:
  "(take 5 iss \<noteq> ''Root-'' \<longrightarrow>
      certRetrieveCertificateChainBySignatureIssuer lay env (Some d) (Some iss)
        = Some (False, Some d, [Log_InvalidParameters]))
   \<and> certRetrieveCertificateChainBySignatureIssuer lay env (Some d) (Some ''Root-'')
        = Some (False, Some (d\<lparr>count := 0\<rparr>), [Log_InvalidSignatureIssuerString])
   \<and> (take 5 iss' = ''Root-'' \<longrightarrow> issuer_copy iss' = Some copy \<longrightarrow> count_loop copy 0 \<noteq> 0 \<longrightarrow>
      calloc_ok env \<longrightarrow>
      retrieve_loop lay env (replicate (unat (count_loop copy 0)) (calloc_Certificate lay env))
        copy 0 = Some (False, cs', lg) \<longrightarrow>
      certRetrieveCertificateChainBySignatureIssuer lay env (Some d) (Some iss')
        = Some (False, Some (d\<lparr>count := 0, certs := None\<rparr>), lg)
      \<and> (\<exists>pch. pch \<in> set (issuer_tokens copy) \<and> lg \<noteq> []
             \<and> last lg = Log_UnableToRetrieveCertificate pch))"
proof (intro conjI impI)
  assume "take 5 iss \<noteq> ''Root-''"
  then show "certRetrieveCertificateChainBySignatureIssuer lay env (Some d) (Some iss)
        = Some (False, Some d, [Log_InvalidParameters])"
    by (simp add: certRetrieveCertificateChainBySignatureIssuer_def)
next
  have "issuer_copy ''Root-'' = Some []"
    by (simp add: issuer_copy_def)
  moreover have "count_loop [] 0 = 0"
    by (simp add: count_loop.simps[of "[]"] strtok_Nil)
  ultimately show "certRetrieveCertificateChainBySignatureIssuer lay env (Some d) (Some ''Root-'')
        = Some (False, Some (d\<lparr>count := 0\<rparr>), [Log_InvalidSignatureIssuerString])"
    using chain_unfold[of "''Root-''" lay env d] by simp
next
  assume a: "take 5 iss' = ''Root-''" "issuer_copy iss' = Some copy" "count_loop copy 0 \<noteq> 0"
    "calloc_ok env"
    "retrieve_loop lay env (replicate (unat (count_loop copy 0)) (calloc_Certificate lay env))
        copy 0 = Some (False, cs', lg)"
  show "certRetrieveCertificateChainBySignatureIssuer lay env (Some d) (Some iss')
        = Some (False, Some (d\<lparr>count := 0, certs := None\<rparr>), lg)"
    using chain_unfold[OF a(1), of lay env d] a(2-5) by simp
  show "\<exists>pch. pch \<in> set (issuer_tokens copy) \<and> lg \<noteq> []
             \<and> last lg = Log_UnableToRetrieveCertificate pch"
    using retrieve_loop_failure[OF a(5)] by (simp add: strtok_all_tokens)
qed


lemma example_missing: "certRetrieveCertificateByName nx_layout example_env
     (Some (calloc_Certificate nx_layout example_env)) (Some ''missing'')
   = Some (False, Some (calloc_Certificate nx_layout example_env),
           [Log_FailedToLocateCertificate ''missing''])"
  by (simp add: certRetrieveCertificateByName_def example_env_def
      CERT_SAVEFILE_STORAGE_BASE_PATH_def)

lemma example_missing_loop:
  "retrieve_loop nx_layout example_env [calloc_Certificate nx_layout example_env] ''missing'' 0
   = Some (False, [calloc_Certificate nx_layout example_env],
           [Log_FailedToLocateCertificate ''missing'', Log_UnableToRetrieveCertificate ''missing''])"
proof -
  have "strtok ''missing'' = Some (''missing'', [])"
    by (simp add: strtok_def)
  then show ?thesis
    using example_missing by (simp add: retrieve_loop_unfold[of _ _ _ "''missing''"])
qed

lemma example_missing_count: "count_loop ''missing'' 0 = 1"
proof -
  have "strtok ''missing'' = Some (''missing'', [])"
    by (simp add: strtok_def)
  then show ?thesis
    by (simp add: count_loop.simps[of "''missing''"] count_loop.simps[of "[]"] strtok_Nil)
qed

lemma example_missing_copy: "issuer_copy ''Root-missing'' = Some ''missing''"
  by (simp add: issuer_copy_def)

text \<open>
  C8 as stated fails: started on a zeroed chain, an issuer without the prefix, the issuer
  \<open>Root-\<close> and an issuer whose certificate is missing all give the caller the same
  value false and the same zeroed chain. Only the messages logged differ.
\<close>

theorem chain_failures_look_alike:
  "certRetrieveCertificateChainBySignatureIssuer nx_layout example_env (Some zero_chain)
     (Some ''CA00000003'') = Some (False, Some zero_chain, [Log_InvalidParameters])
   \<and> certRetrieveCertificateChainBySignatureIssuer nx_layout example_env (Some zero_chain)
     (Some ''Root-'') = Some (False, Some zero_chain, [Log_InvalidSignatureIssuerString])
   \<and> certRetrieveCertificateChainBySignatureIssuer nx_layout example_env (Some zero_chain)
     (Some ''Root-missing'')
     = Some (False, Some zero_chain,
             [Log_FailedToLocateCertificate ''missing'',
              Log_UnableToRetrieveCertificate ''missing''])"
proof -
  have a: "certRetrieveCertificateChainBySignatureIssuer nx_layout example_env (Some zero_chain)
     (Some ''CA00000003'') = Some (False, Some zero_chain, [Log_InvalidParameters])"
    by (simp add: certRetrieveCertificateChainBySignatureIssuer_def)
  have "issuer_copy ''Root-'' = Some []"
    by (simp add: issuer_copy_def)
  moreover have "count_loop [] 0 = 0"
    by (simp add: count_loop.simps[of "[]"] strtok_Nil)
  ultimately have b: "certRetrieveCertificateChainBySignatureIssuer nx_layout example_env
     (Some zero_chain) (Some ''Root-'')
     = Some (False, Some zero_chain, [Log_InvalidSignatureIssuerString])"
    using chain_unfold[of "''Root-''" nx_layout example_env zero_chain]
    by (simp add: zero_chain_def)
  have "calloc_ok example_env"
    by (simp add: example_env_def)
  then have c: "certRetrieveCertificateChainBySignatureIssuer nx_layout example_env
     (Some zero_chain) (Some ''Root-missing'')
     = Some (False, Some zero_chain,
             [Log_FailedToLocateCertificate ''missing'',
              Log_UnableToRetrieveCertificate ''missing''])"
    using chain_unfold[of "''Root-missing''" nx_layout example_env zero_chain]
    by (simp add: example_missing_copy example_missing_count example_missing_loop zero_chain_def)
  show ?thesis using a b c by simp
qed

theorem chain_failure_cases_witness:
  "take 5 ''CA00000003'' \<noteq> ''Root-''
   \<and> certRetrieveCertificateChainBySignatureIssuer nx_layout example_env (Some zero_chain)
       (Some ''CA00000003'') = Some (False, Some zero_chain, [Log_InvalidParameters])
   \<and> take 5 ''Root-missing'' = ''Root-''
   \<and> issuer_copy ''Root-missing'' = Some ''missing''
   \<and> count_loop ''missing'' 0 \<noteq> 0
   \<and> calloc_ok example_env
   \<and> retrieve_loop nx_layout example_env
        (replicate (unat (count_loop ''missing'' 0)) (calloc_Certificate nx_layout example_env))
        ''missing'' 0
      = Some (False, [calloc_Certificate nx_layout example_env],
              [Log_FailedToLocateCertificate ''missing'',
               Log_UnableToRetrieveCertificate ''missing''])
   \<and> certRetrieveCertificateChainBySignatureIssuer nx_layout example_env (Some zero_chain)
       (Some ''Root-missing'')
      = Some (False, Some (zero_chain\<lparr>count := 0, certs := None\<rparr>),
              [Log_FailedToLocateCertificate ''missing'',
               Log_UnableToRetrieveCertificate ''missing''])"
proof -
  have a: "take 5 ''CA00000003'' \<noteq> ''Root-''" by simp
  have b: "take 5 ''Root-missing'' = ''Root-''" by simp
  have c: "count_loop ''missing'' 0 \<noteq> 0" by (simp add: example_missing_count)
  have d: "calloc_ok example_env" by (simp add: example_env_def)
  have e: "retrieve_loop nx_layout example_env
        (replicate (unat (count_loop ''missing'' 0)) (calloc_Certificate nx_layout example_env))
        ''missing'' 0
      = Some (False, [calloc_Certificate nx_layout example_env],
              [Log_FailedToLocateCertificate ''missing'',
               Log_UnableToRetrieveCertificate ''missing''])"
    by (simp add: example_missing_count example_missing_loop)
  show ?thesis
    using a b c d e example_missing_copy
      chain_failure_cases[of "''CA00000003''" nx_layout example_env zero_chain
        "''Root-missing''" "''missing''" "[calloc_Certificate nx_layout example_env]"
        "[Log_FailedToLocateCertificate ''missing'', Log_UnableToRetrieveCertificate ''missing'']"]
    by simp
qed


text \<open>
  C3, as the code has it. For an issuer \<open>Root-\<close> followed by a tail of fewer than
  \<open>0x40\<close> characters without \<open>%\<close>, a successful call leaves a chain whose \<open>count\<close> is
  the number \<open>k \<ge> 1\<close> of tokens of the tail, and whose array has \<open>k\<close> elements: element
  \<open>i\<close> is the certificate that \<open>certRetrieveCertificateByName\<close> retrieves for the
  \<open>i\<close>-th token into a zeroed certificate.
\<close>

theorem chain_tokens_in_order:
  assumes "length tail < 0x40" and "CHR ''%'' \<notin> set tail"
    and "certRetrieveCertificateChainBySignatureIssuer lay env (Some d) (Some (''Root-'' @ tail))
           = Some (True, chain, lg)"
  shows "\<exists>c cs. chain = Some c \<and> certs c = Some cs \<and> issuer_tokens tail \<noteq> []
           \<and> unat (count c) = length (issuer_tokens tail)
           \<and> length cs = length (issuer_tokens tail)
           \<and> (\<forall>k < length (issuer_tokens tail).
                 \<exists>l. certRetrieveCertificateByName lay env (Some (calloc_Certificate lay env))
                        (Some (issuer_tokens tail ! k))
                      = Some (True, Some (cs ! k), l))"
proof -
  let ?toks = "issuer_tokens tail"
  let ?n = "count_loop tail 0"
  let ?array = "replicate (unat ?n) (calloc_Certificate lay env)"
  have copy: "issuer_copy (''Root-'' @ tail) = Some tail"
    using issuer_copy_plain[OF assms(2)] assms(1) by simp
  have len: "length ?toks \<le> length tail"
    using length_strtok_all[of tail] by (simp add: strtok_all_tokens)
  have n: "?n = of_nat (length ?toks)"
    by (simp add: count_loop_eq strtok_all_tokens)
  have un: "unat ?n = length ?toks"
    using len assms(1) by (simp add: n unat_of_nat)
  have pre: "take 5 (''Root-'' @ tail) = ''Root-''"
    by simp
  have unf: "(if ?n = 0
          then Some (False, Some (d\<lparr>count := 0\<rparr>), [Log_InvalidSignatureIssuerString])
          else if \<not> calloc_ok env
          then Some (False, Some (d\<lparr>count := ?n, certs := None\<rparr>), [Log_UnableToAllocateChain])
          else
            (case retrieve_loop lay env ?array tail 0 of
               None \<Rightarrow> None
             | Some (success, array', lg) \<Rightarrow>
                 Some (success,
                       if success then Some (d\<lparr>count := ?n, certs := Some array'\<rparr>)
                       else Some (d\<lparr>count := 0, certs := None\<rparr>),
                       lg))) = Some (True, chain, lg)"
    using chain_unfold[OF pre, of lay env d] copy assms(3) by simp
  have n0: "?n \<noteq> 0"
    using unf by (auto split: if_splits)
  have ok: "calloc_ok env"
    using unf n0 by (auto split: if_splits)
  obtain cs where loop: "retrieve_loop lay env ?array tail 0 = Some (True, cs, lg)"
    and chain: "chain = Some (d\<lparr>count := ?n, certs := Some cs\<rparr>)"
    using unf n0 ok by (auto split: option.splits if_splits)
  have small: "length ?array < 2 ^ 32"
    using un len assms(1) by simp
  have z: "unat (0 :: u32) \<le> length ?array"
    by simp
  note inv = retrieve_loop_success[OF loop small z]
  have inv1: "length cs = length ?toks"
    using inv un by simp
  have each: "\<forall>k < length ?toks.
          \<exists>l. certRetrieveCertificateByName lay env (Some (calloc_Certificate lay env))
                 (Some (?toks ! k))
               = Some (True, Some (cs ! k), l)"
  proof (intro allI impI)
    fix k
    assume k: "k < length ?toks"
    then have "?array ! k = calloc_Certificate lay env"
      using un by simp
    moreover obtain l where
      "certRetrieveCertificateByName lay env (Some (?array ! (unat (0 :: u32) + k)))
         (Some (strtok_all tail ! k)) = Some (True, Some (cs ! (unat (0 :: u32) + k)), l)"
      using inv k unfolding strtok_all_tokens by blast
    ultimately show "\<exists>l. certRetrieveCertificateByName lay env
          (Some (calloc_Certificate lay env)) (Some (?toks ! k)) = Some (True, Some (cs ! k), l)"
      by (auto simp: strtok_all_tokens)
  qed
  have ne: "?toks \<noteq> []"
    using n0 n by auto
  show ?thesis
    using chain inv1 un each ne by simp
qed


lemma example_long_name: "certRetrieveCertificateByName nx_layout long_env
     (Some (calloc_Certificate nx_layout long_env)) (Some long_name)
   = Some (True, Some (loaded CertType_SigEcsda240_PubKeyEcsda240 ecsda_cert), [])"
  by (simp add: cert_eval_simps long_env_def long_name_def ecsda_cert_def)

lemma example_long_tok: "strtok long_name = Some (long_name, [])"
  by (simp add: strtok_def long_name_def)

lemma example_long_tok2: "strtok (long_name @ ''-b'') = Some (long_name, ''b'')"
  by (simp add: strtok_def long_name_def)

lemma example_long_copy: "issuer_copy (''Root-'' @ long_name @ ''-b'') = Some long_name"
proof -
  have "CHR ''%'' \<notin> set (long_name @ ''-b'')"
    by (simp add: long_name_def)
  then show ?thesis
    using issuer_copy_plain[of "long_name @ ''-b''"] by (simp add: long_name_def)
qed

text \<open>
  C3 as stated fails for a long issuer: behind \<open>Root-\<close> stand a token of 63 characters
  and the token \<open>b\<close>, two tokens, but the copy of the issuer that is cut into tokens holds
  63 characters only, and the call succeeds with a chain of one certificate.
\<close>

theorem chain_count_truncated:
  "take 5 (''Root-'' @ long_name @ ''-b'') = ''Root-''
   \<and> issuer_tokens (long_name @ ''-b'') = [long_name, ''b'']
   \<and> certRetrieveCertificateChainBySignatureIssuer nx_layout long_env (Some zero_chain)
        (Some (''Root-'' @ long_name @ ''-b''))
      = Some (True,
              Some \<lparr>count = 1,
                    certs = Some [loaded CertType_SigEcsda240_PubKeyEcsda240 ecsda_cert]\<rparr>,
              [])"
proof -
  have a: "take 5 (''Root-'' @ long_name @ ''-b'') = ''Root-''"
    by simp
  have "strtok ''b'' = Some (''b'', [])"
    by (simp add: strtok_def)
  then have b: "issuer_tokens (long_name @ ''-b'') = [long_name, ''b'']"
    unfolding strtok_all_tokens[symmetric]
    by (simp add: strtok_all.simps[of "long_name @ ''-b''"] strtok_all.simps[of "''b''"]
        strtok_all.simps[of "[]"] example_long_tok2 strtok_Nil)
  have c: "count_loop long_name 0 = 1"
    by (simp add: count_loop.simps[of long_name] count_loop.simps[of "[]"] example_long_tok strtok_Nil)
  have d: "retrieve_loop nx_layout long_env [calloc_Certificate nx_layout long_env] long_name 0
      = Some (True, [loaded CertType_SigEcsda240_PubKeyEcsda240 ecsda_cert], [])"
    by (simp add: retrieve_loop_unfold[of _ _ _ long_name] retrieve_loop_unfold[of _ _ _ "[]"]
        example_long_tok strtok_Nil example_long_name)
  have e: "calloc_ok long_env"
    by (simp add: long_env_def example_env_def)
  have "certRetrieveCertificateChainBySignatureIssuer nx_layout long_env (Some zero_chain)
        (Some (''Root-'' @ long_name @ ''-b''))
      = Some (True,
              Some \<lparr>count = 1,
                    certs = Some [loaded CertType_SigEcsda240_PubKeyEcsda240 ecsda_cert]\<rparr>,
              [])"
    unfolding chain_unfold[OF a] example_long_copy
    using c d e by (simp add: zero_chain_def)
  then show ?thesis
    using a b by simp
qed

lemma example_two_loop:
  "retrieve_loop nx_layout example_env
     [calloc_Certificate nx_layout example_env, calloc_Certificate nx_layout example_env]
     ''CA00000003-XS00000020'' 0
   = Some (True, [loaded CertType_SigEcsda240_PubKeyEcsda240 ecsda_cert,
                  loaded CertType_SigEcsda240_PubKeyEcsda240 sha256_cert], [])"
  by (simp add: retrieve_loop_unfold[of _ _ _ "''CA00000003-XS00000020''"]
      retrieve_loop_unfold[of _ _ _ "''XS00000020''"] retrieve_loop_unfold[of _ _ _ "[]"]
      example_tok example_tok2 example_tok3 example_CA example_XS)

lemma example_two_count: "count_loop ''CA00000003-XS00000020'' 0 = 2"
  by (simp add: count_loop.simps[of "''CA00000003-XS00000020''"]
      count_loop.simps[of "''XS00000020''"] count_loop.simps[of "[]"] example_tok example_tok2 example_tok3)

lemma example_two_chain:
  "certRetrieveCertificateChainBySignatureIssuer nx_layout example_env (Some zero_chain)
     (Some ''Root-CA00000003-XS00000020'')
   = Some (True,
           Some \<lparr>count = 2,
                 certs = Some [loaded CertType_SigEcsda240_PubKeyEcsda240 ecsda_cert,
                               loaded CertType_SigEcsda240_PubKeyEcsda240 sha256_cert]\<rparr>,
           [])"
proof -
  have a: "take 5 ''Root-CA00000003-XS00000020'' = ''Root-''"
    by simp
  have e: "calloc_ok example_env"
    by (simp add: example_env_def)
  have r: "replicate 2 (calloc_Certificate nx_layout example_env)
      = [calloc_Certificate nx_layout example_env, calloc_Certificate nx_layout example_env]"
    by (simp add: numeral_2_eq_2)
  show ?thesis
    unfolding chain_unfold[OF a] example_copy
    using e by (simp add: example_two_count r example_two_loop zero_chain_def)
qed

theorem chain_tokens_in_order_witness:
  "length ''CA00000003-XS00000020'' < 0x40
   \<and> CHR ''%'' \<notin> set ''CA00000003-XS00000020''
   \<and> certRetrieveCertificateChainBySignatureIssuer nx_layout example_env (Some zero_chain)
       (Some (''Root-'' @ ''CA00000003-XS00000020''))
     = Some (True,
           Some \<lparr>count = 2,
                 certs = Some [loaded CertType_SigEcsda240_PubKeyEcsda240 ecsda_cert,
                               loaded CertType_SigEcsda240_PubKeyEcsda240 sha256_cert]\<rparr>,
           [])
   \<and> issuer_tokens ''CA00000003-XS00000020'' = [''CA00000003'', ''XS00000020'']
   \<and> (\<exists>c cs. Some \<lparr>count = 2,
                 certs = Some [loaded CertType_SigEcsda240_PubKeyEcsda240 ecsda_cert,
                               loaded CertType_SigEcsda240_PubKeyEcsda240 sha256_cert]\<rparr> = Some c
         \<and> certs c = Some cs
         \<and> unat (count c) = length (issuer_tokens ''CA00000003-XS00000020'')
         \<and> length cs = length (issuer_tokens ''CA00000003-XS00000020''))"
proof -
  have a: "length ''CA00000003-XS00000020'' < 0x40" by simp
  have b: "CHR ''%'' \<notin> set ''CA00000003-XS00000020''" by simp
  have c: "certRetrieveCertificateChainBySignatureIssuer nx_layout example_env (Some zero_chain)
       (Some (''Root-'' @ ''CA00000003-XS00000020''))
     = Some (True,
           Some \<lparr>count = 2,
                 certs = Some [loaded CertType_SigEcsda240_PubKeyEcsda240 ecsda_cert,
                               loaded CertType_SigEcsda240_PubKeyEcsda240 sha256_cert]\<rparr>,
           [])"
    using example_two_chain by simp
  have d: "issuer_tokens ''CA00000003-XS00000020'' = [''CA00000003'', ''XS00000020'']"
    by (simp add: issuer_tokens_def)
  show ?thesis
    using a b c d chain_tokens_in_order[OF a b c] by auto
qed

section \<open>cert.c: raw chains\<close>

declare size_loop.simps [simp del] copy_loop.simps [simp del]

lemma size_loop_eq:
  assumes "unat cnt \<le> length cs" and "unat i \<le> unat cnt"
  shows "size_loop cs cnt i acc
           = Some (acc + sum_list (map size_c (drop (unat i) (take (unat cnt) cs))))"
  using assms
proof (induction cs cnt i acc rule: size_loop.induct)
  case (1 cs cnt i chain_size)
  show ?case
  proof (cases "i < cnt")
    case False
    then have "unat i = unat cnt"
      using "1.prems"(2) by (simp add: word_less_nat_alt)
    then show ?thesis
      using False by (simp add: size_loop.simps[of cs cnt i])
  next
    case True
    then have lt: "unat i < unat cnt"
      by (simp add: word_less_nat_alt)
    then have inb: "unat i < length cs"
      using "1.prems"(1) by simp
    have suc: "unat (i + 1) = Suc (unat i)"
      using True by (rule unat_inc)
    have dr: "drop (unat i) (take (unat cnt) cs)
                = cs ! unat i # drop (Suc (unat i)) (take (unat cnt) cs)"
      using lt "1.prems"(1) Cons_nth_drop_Suc[of "unat i" "take (unat cnt) cs"] by simp
    have "size_loop cs cnt (i + 1) (chain_size + size_c (cs ! unat i))
            = Some (chain_size + size_c (cs ! unat i)
                     + sum_list (map size_c (drop (unat (i + 1)) (take (unat cnt) cs))))"
      using "1.IH"[OF True inb] "1.prems"(1) lt suc by simp
    then show ?thesis
      using True inb suc dr by (simp add: size_loop.simps[of cs cnt i] add.assoc)
  qed
qed

lemma copy_loop_eq:
  assumes "unat cnt \<le> length cs" and "unat i \<le> unat cnt"
    and "\<forall>c \<in> set cs. unat (size_c c) \<le> length (data_c c)"
    and "off + length (concat (map cert_bytes (drop (unat i) (take (unat cnt) cs)))) \<le> length dst"
  shows "copy_loop cs cnt i dst off
           = Some (take off dst
                   @ concat (map cert_bytes (drop (unat i) (take (unat cnt) cs)))
                   @ drop (off + length (concat (map cert_bytes
                                                  (drop (unat i) (take (unat cnt) cs))))) dst)"
  using assms
proof (induction cs cnt i dst off rule: copy_loop.induct)
  case (1 cs cnt i dst off)
  show ?case
  proof (cases "i < cnt")
    case False
    then have "unat i = unat cnt"
      using "1.prems"(2) by (simp add: word_less_nat_alt)
    then show ?thesis
      using False by (simp add: copy_loop.simps[of cs cnt i])
  next
    case True
    then have lt: "unat i < unat cnt"
      by (simp add: word_less_nat_alt)
    then have inb: "unat i < length cs"
      using "1.prems"(1) by simp
    have suc: "unat (i + 1) = Suc (unat i)"
      using True by (rule unat_inc)
    let ?c = "cs ! unat i"
    let ?n = "unat (size_c ?c)"
    let ?rest = "concat (map cert_bytes (drop (Suc (unat i)) (take (unat cnt) cs)))"
    have dr: "drop (unat i) (take (unat cnt) cs) = ?c # drop (Suc (unat i)) (take (unat cnt) cs)"
      using lt "1.prems"(1) Cons_nth_drop_Suc[of "unat i" "take (unat cnt) cs"] by simp
    have n: "?n \<le> length (data_c ?c)"
      using "1.prems"(3) inb by simp
    have lb: "length (cert_bytes ?c) = ?n"
      using n by (simp add: cert_bytes_def)
    have fit: "off + ?n + length ?rest \<le> length dst"
      using "1.prems"(4) dr lb by simp
    let ?dst' = "take off dst @ take ?n (data_c ?c) @ drop (off + ?n) dst"
    have len': "length ?dst' = length dst"
      using fit n by simp
    have "copy_loop cs cnt (i + 1) ?dst' (off + ?n)
            = Some (take (off + ?n) ?dst' @ ?rest @ drop (off + ?n + length ?rest) ?dst')"
      using "1.IH"[OF True inb refl, of ] n fit "1.prems"(1,3) lt suc len'
      by simp
    moreover have "take (off + ?n) ?dst' = take off dst @ cert_bytes ?c"
      using fit n by (simp add: cert_bytes_def)
    moreover have "drop (off + ?n + length ?rest) ?dst' = drop (off + ?n + length ?rest) dst"
      using fit n by (simp add: add.commute add.left_commute)
    ultimately show ?thesis
      using True inb n fit dr lb
      by (simp add: copy_loop.simps[of cs cnt i] Let_def add.assoc)
  qed
qed


lemma unat_of_nat_le: "unat (of_nat n :: u64) \<le> n"
  by (simp add: unat_of_nat)

lemma byname_success:
  assumes "certRetrieveCertificateByName lay env (Some d) (Some n) = Some (True, Some c, l)"
  shows "size_c c \<le> CERT_MAX_SIZE lay \<and> unat (size_c c) \<le> length (data_c c)"
proof -
  let ?path = "take (SAVE_FS_LIST_MAX_NAME_LENGTH env - 1) (CERT_SAVEFILE_STORAGE_BASE_PATH @ n)"
  have ne: "n \<noteq> []" and op: "savefile_opens env"
    using assms by (auto simp: certRetrieveCertificateByName_def Let_def split: if_splits)
  obtain f where f: "save_lookup env ?path = Some f"
    using assms ne op
    by (cases "save_lookup env ?path") (auto simp: certRetrieveCertificateByName_def Let_def)
  have rng: "CERT_MIN_SIZE lay \<le> entry_size f" "entry_size f \<le> CERT_MAX_SIZE lay"
    using assms ne op f
    by (auto simp: certRetrieveCertificateByName_def Let_def not_less split: if_splits)
  note unf = certRetrieveCertificateByName_in_range[OF ne op f rng, of d]
  have br: "(of_nat (length (entry_read f)) :: u64) = entry_size f"
    using assms unfolding unf Let_def by (auto split: if_splits)
  have c: "size_c c = entry_size f"
    "data_c c = entry_read f @ drop (length (entry_read f)) (data_c d)"
    using assms br unfolding unf Let_def by (auto split: if_splits option.splits)
  have "unat (entry_size f) \<le> length (entry_read f)"
    using unat_of_nat_le[of "length (entry_read f)"] br by simp
  then show ?thesis
    using c rng by simp
qed

lemma length_issuer_copy: "issuer_copy iss = Some copy \<Longrightarrow> length copy \<le> 0x3F"
  by (auto simp: issuer_copy_def split: if_splits)

lemma chain_success:
  assumes "certRetrieveCertificateChainBySignatureIssuer lay env (Some d) (Some iss)
             = Some (True, chain, lg)"
  shows "\<exists>c cs. chain = Some c \<and> certs c = Some cs \<and> unat (count c) = length cs
           \<and> count c \<noteq> 0 \<and> length cs \<le> 0x3F
           \<and> (\<forall>x \<in> set cs. size_c x \<le> CERT_MAX_SIZE lay
                                \<and> unat (size_c x) \<le> length (data_c x))"
proof -
  have pre: "take 5 iss = ''Root-''"
    using assms by (auto simp: certRetrieveCertificateChainBySignatureIssuer_def split: if_splits)
  obtain copy where copy: "issuer_copy iss = Some copy"
    using assms unfolding chain_unfold[OF pre] by (cases "issuer_copy iss") auto
  let ?n = "count_loop copy 0"
  let ?array = "replicate (unat ?n) (calloc_Certificate lay env)"
  have len: "length (strtok_all copy) \<le> 0x3F"
    using length_strtok_all[of copy] length_issuer_copy[OF copy] by simp
  have n: "?n = of_nat (length (strtok_all copy))"
    by (simp add: count_loop_eq)
  have un: "unat ?n = length (strtok_all copy)"
    using len by (simp add: n unat_of_nat)
  have unf: "(if ?n = 0
          then Some (False, Some (d\<lparr>count := 0\<rparr>), [Log_InvalidSignatureIssuerString])
          else if \<not> calloc_ok env
          then Some (False, Some (d\<lparr>count := ?n, certs := None\<rparr>), [Log_UnableToAllocateChain])
          else
            (case retrieve_loop lay env ?array copy 0 of
               None \<Rightarrow> None
             | Some (success, array', lg) \<Rightarrow>
                 Some (success,
                       if success then Some (d\<lparr>count := ?n, certs := Some array'\<rparr>)
                       else Some (d\<lparr>count := 0, certs := None\<rparr>),
                       lg))) = Some (True, chain, lg)"
    using chain_unfold[OF pre, of lay env d] copy assms by simp
  have n0: "?n \<noteq> 0"
    using unf by (auto split: if_splits)
  have ok: "calloc_ok env"
    using unf n0 by (auto split: if_splits)
  obtain cs where loop: "retrieve_loop lay env ?array copy 0 = Some (True, cs, lg)"
    and chain: "chain = Some (d\<lparr>count := ?n, certs := Some cs\<rparr>)"
    using unf n0 ok by (auto split: option.splits if_splits)
  have small: "length ?array < 2 ^ 32"
    using un len by simp
  have z: "unat (0 :: u32) \<le> length ?array"
    by simp
  note inv = retrieve_loop_success[OF loop small z]
  have lcs: "length cs = length (strtok_all copy)"
    using inv un by simp
  have good: "size_c x \<le> CERT_MAX_SIZE lay \<and> unat (size_c x) \<le> length (data_c x)"
    if x: "x \<in> set cs" for x
  proof -
    obtain k where k: "k < length cs" "x = cs ! k"
      using x by (auto simp: in_set_conv_nth)
    then obtain l where
      "certRetrieveCertificateByName lay env (Some (?array ! (unat (0 :: u32) + k)))
         (Some (strtok_all copy ! k)) = Some (True, Some (cs ! (unat (0 :: u32) + k)), l)"
      using inv lcs by auto
    then show ?thesis
      using byname_success k(2) by fastforce
  qed
  show ?thesis
    using chain lcs un n0 len good by simp
qed

lemma sum_list_bound:
  "\<forall>x \<in> set xs. f x \<le> (m :: nat) \<Longrightarrow> sum_list (map f xs) \<le> length xs * m"
  by (induction xs) auto

lemma unat_sum_list:
  "sum_list (map unat ws) < 2 ^ 64 \<Longrightarrow> unat (sum_list ws :: u64) = sum_list (map unat ws)"
proof (induction ws)
  case Nil
  show ?case by simp
next
  case (Cons w ws)
  then have "unat (sum_list ws) = sum_list (map unat ws)"
    by simp
  moreover have "unat w + sum_list (map unat ws) < 2 ^ LENGTH(64)"
    using Cons.prems by simp
  ultimately show ?case
    using unat_add_lem[of w "sum_list ws"] by simp
qed

lemma length_concat_cert_bytes:
  "\<forall>x \<in> set cs. unat (size_c x) \<le> length (data_c x) \<Longrightarrow>
     length (concat (map cert_bytes cs)) = sum_list (map (\<lambda>c. unat (size_c c)) cs)"
  by (induction cs) (auto simp: cert_bytes_def)


text \<open>
  C4. When the chain retrieved for the issuer has the certificates \<open>c\<^sub>0 \<dots> c\<^sub>k\<^sub>-\<^sub>1\<close> (it is
  never empty) and \<open>malloc\<close> succeeds, the buffer that
  \<open>certGenerateRawCertificateChainBySignatureIssuer\<close> returns is the concatenation of the
  bytes of \<open>c\<^sub>0\<close>, \<open>c\<^sub>1\<close>, \<dots> in chain order, its length is the sum of their sizes, and
  that sum is what is stored behind \<open>out_size\<close>. The sizes are those of a layout whose
  \<open>CERT_MAX_SIZE\<close> is below \<open>2^32\<close>, so that the 64-bit sum does not wrap around.
\<close>

theorem raw_chain_is_concatenation:
  assumes "unat (CERT_MAX_SIZE lay) < 2 ^ 32" and "malloc_ok env"
    and "certRetrieveCertificateChainBySignatureIssuer lay env
           (Some \<lparr>count = 0, certs = None\<rparr>) (Some iss) = Some (True, chain, lg)"
  shows "\<exists>c cs. chain = Some c \<and> certs c = Some cs \<and> cs \<noteq> []
           \<and> certGenerateRawCertificateChainBySignatureIssuer lay env (Some iss) (Some out0)
               = Some (Some (concat (map cert_bytes cs)), Some (sum_list (map size_c cs)), lg)
           \<and> unat (sum_list (map size_c cs)) = sum_list (map (\<lambda>c. unat (size_c c)) cs)
           \<and> length (concat (map cert_bytes cs)) = sum_list (map (\<lambda>c. unat (size_c c)) cs)"
proof -
  obtain c cs where c: "chain = Some c" "certs c = Some cs" "unat (count c) = length cs"
      "count c \<noteq> 0" "length cs \<le> 0x3F"
      and good: "\<forall>x \<in> set cs. size_c x \<le> CERT_MAX_SIZE lay
                                \<and> unat (size_c x) \<le> length (data_c x)"
    using chain_success[OF assms(3)] by blast
  have iss: "iss \<noteq> []"
    using assms(3) by (auto simp: certRetrieveCertificateChainBySignatureIssuer_def)
  have ne: "cs \<noteq> []"
    using c(3,4) by (auto simp: unat_eq_0)
  let ?total = "sum_list (map (\<lambda>c. unat (size_c c)) cs)"
  have "\<forall>x \<in> set cs. unat (size_c x) \<le> unat (CERT_MAX_SIZE lay)"
    using good by (simp add: word_le_nat_alt)
  then have "?total \<le> length cs * unat (CERT_MAX_SIZE lay)"
    by (rule sum_list_bound)
  also have "\<dots> \<le> 0x3F * unat (CERT_MAX_SIZE lay)"
    using c(5) by simp
  also have "\<dots> < 2 ^ 64"
    using assms(1) by simp
  finally have bound: "?total < 2 ^ 64" .
  have total: "unat (sum_list (map size_c cs)) = ?total"
    using unat_sum_list[of "map size_c cs"] bound by (simp add: comp_def)
  have inb: "\<forall>x \<in> set cs. unat (size_c x) \<le> length (data_c x)"
    using good by simp
  have lcat: "length (concat (map cert_bytes cs)) = ?total"
    using length_concat_cert_bytes[OF inb] .
  have size: "certCalculateRawCertificateChainSize (Some c) = Some (sum_list (map size_c cs))"
    using c size_loop_eq[of "count c" cs 0 0]
    by (simp add: certCalculateRawCertificateChainSize_def)
  let ?buf = "map (malloc_content env) [0..<unat (sum_list (map size_c cs))]"
  have "copy_loop cs (count c) 0 ?buf 0
          = Some (take 0 ?buf @ concat (map cert_bytes (drop (unat (0 :: u32)) (take (unat (count c)) cs)))
                  @ drop (0 + length (concat (map cert_bytes
                            (drop (unat (0 :: u32)) (take (unat (count c)) cs))))) ?buf)"
    using c(3) inb total lcat by (intro copy_loop_eq) simp_all
  then have copy: "certCopyCertificateChainDataToMemoryBuffer ?buf (Some c)
                     = Some (concat (map cert_bytes cs))"
    using c total lcat by (simp add: certCopyCertificateChainDataToMemoryBuffer_def)
  have "certGenerateRawCertificateChainBySignatureIssuer lay env (Some iss) (Some out0)
          = Some (Some (concat (map cert_bytes cs)), Some (sum_list (map size_c cs)), lg)"
    using iss assms(2,3) c(1) size copy
    by (simp add: certGenerateRawCertificateChainBySignatureIssuer_def)
  then show ?thesis
    using c(1,2) ne total lcat by simp
qed

theorem raw_chain_is_concatenation_witness:
  "unat (CERT_MAX_SIZE nx_layout) < 2 ^ 32 \<and> malloc_ok example_env
   \<and> certRetrieveCertificateChainBySignatureIssuer nx_layout example_env
       (Some \<lparr>count = 0, certs = None\<rparr>) (Some ''Root-CA00000003-XS00000020'')
     = Some (True,
           Some \<lparr>count = 2,
                 certs = Some [loaded CertType_SigEcsda240_PubKeyEcsda240 ecsda_cert,
                               loaded CertType_SigEcsda240_PubKeyEcsda240 sha256_cert]\<rparr>,
           [])
   \<and> certGenerateRawCertificateChainBySignatureIssuer nx_layout example_env
       (Some ''Root-CA00000003-XS00000020'') (Some 0)
     = Some (Some (ecsda_cert @ sha256_cert), Some 0x300, [])
   \<and> length (ecsda_cert @ sha256_cert) = 0x300"
proof -
  have a: "unat (CERT_MAX_SIZE nx_layout) < 2 ^ 32"
    by (simp add: nx_layout_def)
  have b: "malloc_ok example_env"
    by (simp add: example_env_def)
  have c: "certRetrieveCertificateChainBySignatureIssuer nx_layout example_env
       (Some \<lparr>count = 0, certs = None\<rparr>) (Some ''Root-CA00000003-XS00000020'')
     = Some (True,
           Some \<lparr>count = 2,
                 certs = Some [loaded CertType_SigEcsda240_PubKeyEcsda240 ecsda_cert,
                               loaded CertType_SigEcsda240_PubKeyEcsda240 sha256_cert]\<rparr>,
           [])"
    using example_two_chain by (simp add: zero_chain_def)
  have d: "cert_bytes (loaded t ecsda_cert) = ecsda_cert"
    "cert_bytes (loaded t sha256_cert) = sha256_cert" for t
    by (simp_all add: cert_bytes_def loaded_def ecsda_cert_def sha256_cert_def)
  have e: "length (ecsda_cert @ sha256_cert) = 0x300"
    by (simp add: ecsda_cert_def sha256_cert_def)
  have f: "size_c (loaded t x) = 0x180" for t x
    by (simp add: loaded_def)
  show ?thesis
    using a b c e raw_chain_is_concatenation[OF a b c, of 0]
    by (auto simp: d f)
qed

end
